theory Spec2Isabelle
  imports Main
begin

section \<open>Android pause/resume event pump (SDL\_androidevents.c)\<close>

text \<open>
  A shallow embedding of \<^verbatim>\<open>project/lib/sdl/src/video/android/SDL_androidevents.c\<close>: the two event
  pumps \<^verbatim>\<open>Android_PumpEvents_Blocking\<close> and \<^verbatim>\<open>Android_PumpEvents_NonBlocking\<close>, and the
  EGL context backup and restore they call. The C file mutates global and function-static
  variables and calls into SDL, EGL and the Android NDK; the model passes one explicit
  state record through every function, and logs each external call and each pushed event.
\<close>

subsection \<open>Data\<close>

text \<open>The event types the file pushes or looks for in the queue.\<close>

datatype event =
    WINDOWEVENT_MINIMIZED
  | WINDOWEVENT_RESTORED
  | APP_WILLENTERBACKGROUND
  | APP_DIDENTERBACKGROUND
  | APP_WILLENTERFOREGROUND
  | APP_DIDENTERFOREGROUND
  | RENDER_DEVICE_RESET
  | QUIT

datatype sem = Android_PauseSem | Android_ResumeSem

datatype backend = ANDROIDAUDIO | openslES | aaudio

text \<open>
  The external calls with an effect outside this file, in the order the code makes them.
  The rate of \<open>Call_SetScreenResolution\<close> is the C \<^verbatim>\<open>int max_rate\<close> before its cast to
  \<^verbatim>\<open>float\<close>. \<open>Call_context_backup\<close> and \<open>Call_context_restore\<close> mark the entry of the
  two static functions of the file.
\<close>

datatype call =
    Call_SemWait sem
  | Call_SemTryWait sem
  | Call_LockMutex
  | Call_UnlockMutex
  | Call_GL_MakeCurrent nat
  | Call_GL_CreateContext
  | Call_GL_SetSwapInterval int
  | Call_SetFormat int int
  | Call_SetScreenResolution int int int int int
  | Call_SendResize
  | Call_PauseDevices backend
  | Call_ResumeDevices backend
  | Call_StartTextInput
  | Call_context_backup
  | Call_context_restore

text \<open>\<^verbatim>\<open>ANativeWindow\<close>: what \<^verbatim>\<open>ANativeWindow_getWidth/getHeight/getFormat\<close> return.\<close>

record ANativeWindow =
  nw_width :: int
  nw_height :: int
  nw_format :: int

text \<open>
  \<^verbatim>\<open>SDL_Window\<close> with the fields of its \<^verbatim>\<open>SDL_WindowData\<close> driver data that the file
  uses. \<open>win_w\<close>, \<open>win_h\<close> are \<^verbatim>\<open>window->w\<close>, \<^verbatim>\<open>window->h\<close>; a context handle is a
  number, 0 for \<^verbatim>\<open>NULL\<close>; \<open>native_window = None\<close> is a \<^verbatim>\<open>NULL\<close> native window.
\<close>

record SDL_Window =
  win_w :: int
  win_h :: int
  egl_context :: nat
  backup_done :: int
  native_window :: "ANativeWindow option"

text \<open>
  \<^verbatim>\<open>SDL_VideoDisplay\<close>: the refresh rate of \<^verbatim>\<open>desktop_mode\<close> and the refresh rates of
  \<^verbatim>\<open>display_modes[0 .. num_display_modes - 1]\<close>, in order.
\<close>

record SDL_VideoDisplay =
  desktop_mode_refresh_rate :: int
  display_modes_refresh_rate :: "int list"

text \<open>
  The whole state. \<open>isPaused\<close>, \<open>isPausing\<close>, \<open>pauseAudio\<close> are the \<^verbatim>\<open>SDL_VideoData\<close>
  fields and \<open>backup_context\<close> the static of the non-blocking pump: C ints that the code
  only sets to 0 or 1 and only tests for truth, so booleans here. \<open>saved_swap_interval\<close>,
  \<open>prev_surface_w\<close>, \<open>prev_surface_h\<close>, \<open>prev_rate\<close> are the statics, all initially 0.
  \<open>PauseSem\<close> and \<open>ResumeSem\<close> are the counts of the two semaphores, \<open>queue\<close> the SDL
  event queue, \<open>current_context\<close> and \<open>swap_interval\<close> the GL driver's state.
  \<open>emitted\<close> lists every event this file pushed, oldest first, and \<open>calls\<close> every
  external call it made; neither is read by the code.
\<close>

record st =
  isPaused :: bool
  isPausing :: bool
  pauseAudio :: bool
  backup_context :: bool
  saved_swap_interval :: int
  prev_surface_w :: int
  prev_surface_h :: int
  prev_rate :: int
  Android_Window :: "SDL_Window option"
  display :: "SDL_VideoDisplay option"
  PauseSem :: nat
  ResumeSem :: nat
  queue :: "event list"
  current_context :: nat
  swap_interval :: int
  emitted :: "event list"
  calls :: "call list"

text \<open>
  What the external queries answer during one call of a pump: they are not under
  \<^verbatim>\<open>src/\<close>, so their answers are parameters. \<open>MakeCurrent_ok ctx\<close> tells whether
  \<^verbatim>\<open>SDL_GL_MakeCurrent(window, ctx)\<close> succeeds, \<open>SetSwapInterval_ok i\<close> whether
  \<^verbatim>\<open>SDL_GL_SetSwapInterval(i)\<close> does.
\<close>

record env =
  IsVideoContextExternal :: bool
  MakeCurrent_ok :: "nat \<Rightarrow> bool"
  CreateContext_result :: nat
  eglGetError_result :: int
  SetSwapInterval_ok :: "int \<Rightarrow> bool"
  IsTextInputActive :: bool
  DetectBrokenPlayState :: bool

subsection \<open>External operations\<close>

definition called :: "call \<Rightarrow> st \<Rightarrow> st" where
  "called c s = s\<lparr>calls := calls s @ [c]\<rparr>"

text \<open>
  Modelled from the spec: the event queue (\<^verbatim>\<open>SDL_PushEvent\<close>, \<^verbatim>\<open>SDL_SendAppEvent\<close>,
  \<^verbatim>\<open>SDL_SendWindowEvent\<close>, \<^verbatim>\<open>SDL_PeepEvents\<close>, \<^verbatim>\<open>SDL_HasEvent\<close> are not under
  \<^verbatim>\<open>src/\<close>). "An ordered queue of application/window lifecycle events; the core pushes
  typed events and can peek/count queued events of a given type without removing them."
\<close>

definition SDL_PushEvent :: "event \<Rightarrow> st \<Rightarrow> st" where
  "SDL_PushEvent ev s = s\<lparr>queue := queue s @ [ev], emitted := emitted s @ [ev]\<rparr>"

definition SDL_SendAppEvent :: "event \<Rightarrow> st \<Rightarrow> st" where
  "SDL_SendAppEvent ev s = SDL_PushEvent ev s"

definition SDL_SendWindowEvent :: "event \<Rightarrow> st \<Rightarrow> st" where
  "SDL_SendWindowEvent ev s = SDL_PushEvent ev s"

definition SDL_HasEvent :: "event \<Rightarrow> st \<Rightarrow> bool" where
  "SDL_HasEvent ty s = (ty \<in> set (queue s))"

text \<open>
  \<^verbatim>\<open>SDL_NumberOfEvents\<close> (lines 69-73): the number of queued events of one type. The
  C value is an \<^verbatim>\<open>int\<close> that line 255 compares with the \<^verbatim>\<open>Uint32\<close> of
  \<^verbatim>\<open>SDL_SemValue\<close>; a count is never negative, so both are naturals here.
\<close>

definition SDL_NumberOfEvents :: "event \<Rightarrow> st \<Rightarrow> nat" where
  "SDL_NumberOfEvents ty s = length (filter (\<lambda>ev. ev = ty) (queue s))"

text \<open>
  Modelled from the spec: the semaphores (\<^verbatim>\<open>SDL_SemWait\<close>, \<^verbatim>\<open>SDL_SemTryWait\<close>,
  \<^verbatim>\<open>SDL_SemValue\<close> are not under \<^verbatim>\<open>src/\<close>). "Two counting signals, Pause and Resume,
  raised by the host; consumed via blocking-wait and try-wait", "read via blocking-wait,
  try-wait, and current-count query". The try-wait takes one count and returns 0, or returns
  a non-zero code (\<^verbatim>\<open>SDL_MUTEX_TIMEDOUT\<close>, 1) when the count is 0. The blocking wait
  takes one count and returns 0; while the count is 0 it does not return, which is the
  value \<open>None\<close>. The spec's signal has no failing wait, so the wait here has none; the
  pumps keep the test of its result (\<^verbatim>\<open>== 0\<close>, line 212).
\<close>

definition SDL_SemValue :: "sem \<Rightarrow> st \<Rightarrow> nat" where
  "SDL_SemValue m s = (case m of Android_PauseSem \<Rightarrow> PauseSem s | Android_ResumeSem \<Rightarrow> ResumeSem s)"

definition sem_take :: "sem \<Rightarrow> st \<Rightarrow> st" where
  "sem_take m s =
     (case m of
        Android_PauseSem \<Rightarrow> s\<lparr>PauseSem := PauseSem s - 1\<rparr>
      | Android_ResumeSem \<Rightarrow> s\<lparr>ResumeSem := ResumeSem s - 1\<rparr>)"

definition SDL_SemTryWait :: "sem \<Rightarrow> st \<Rightarrow> int \<times> st" where
  "SDL_SemTryWait m s =
     (let s1 = called (Call_SemTryWait m) s
      in if SDL_SemValue m s1 = 0 then (1, s1) else (0, sem_take m s1))"

definition SDL_SemWait :: "sem \<Rightarrow> st \<Rightarrow> (int \<times> st) option" where
  "SDL_SemWait m s = (if SDL_SemValue m s = 0 then None else Some (0, sem_take m s))"

text \<open>
  Modelled from the spec: the graphics context operations ("get current context,
  make-context-current, create-context, get/set swap interval, get last error code"; none
  is under \<^verbatim>\<open>src/\<close>). A call that succeeds returns 0 and sets the driver's state, a call
  that fails returns -1 and leaves it.
\<close>

definition SDL_GL_GetCurrentContext :: "st \<Rightarrow> nat" where
  "SDL_GL_GetCurrentContext s = current_context s"

definition SDL_GL_MakeCurrent :: "env \<Rightarrow> nat \<Rightarrow> st \<Rightarrow> int \<times> st" where
  "SDL_GL_MakeCurrent e ctx s =
     (let s1 = called (Call_GL_MakeCurrent ctx) s
      in if MakeCurrent_ok e ctx then (0, s1\<lparr>current_context := ctx\<rparr>) else (- 1, s1))"

definition SDL_GL_CreateContext :: "env \<Rightarrow> st \<Rightarrow> nat \<times> st" where
  "SDL_GL_CreateContext e s = (CreateContext_result e, called Call_GL_CreateContext s)"

definition SDL_GL_GetSwapInterval :: "st \<Rightarrow> int" where
  "SDL_GL_GetSwapInterval s = swap_interval s"

definition SDL_GL_SetSwapInterval :: "env \<Rightarrow> int \<Rightarrow> st \<Rightarrow> int \<times> st" where
  "SDL_GL_SetSwapInterval e i s =
     (let s1 = called (Call_GL_SetSwapInterval i) s
      in if SetSwapInterval_ok e i then (0, s1\<lparr>swap_interval := i\<rparr>) else (- 1, s1))"

definition eglGetError :: "env \<Rightarrow> int" where
  "eglGetError e = eglGetError_result e"

text \<open>The two error codes of \<^verbatim>\<open>EGL/egl.h\<close> that line 92 tests.\<close>

definition EGL_BAD_ALLOC :: int where
  "EGL_BAD_ALLOC = 12291"

definition EGL_BAD_MATCH :: int where
  "EGL_BAD_MATCH = 12297"

definition SDL_LockMutex :: "st \<Rightarrow> st" where
  "SDL_LockMutex s = called Call_LockMutex s"

definition SDL_UnlockMutex :: "st \<Rightarrow> st" where
  "SDL_UnlockMutex s = called Call_UnlockMutex s"

text \<open>
  The audio hooks (lines 38-62): an external function or an empty stub, by the build's
  flags; the model logs the call either way.
\<close>

definition ANDROIDAUDIO_PauseDevices :: "st \<Rightarrow> st" where
  "ANDROIDAUDIO_PauseDevices s = called (Call_PauseDevices ANDROIDAUDIO) s"

definition ANDROIDAUDIO_ResumeDevices :: "st \<Rightarrow> st" where
  "ANDROIDAUDIO_ResumeDevices s = called (Call_ResumeDevices ANDROIDAUDIO) s"

definition openslES_PauseDevices :: "st \<Rightarrow> st" where
  "openslES_PauseDevices s = called (Call_PauseDevices openslES) s"

definition openslES_ResumeDevices :: "st \<Rightarrow> st" where
  "openslES_ResumeDevices s = called (Call_ResumeDevices openslES) s"

definition aaudio_PauseDevices :: "st \<Rightarrow> st" where
  "aaudio_PauseDevices s = called (Call_PauseDevices aaudio) s"

definition aaudio_ResumeDevices :: "st \<Rightarrow> st" where
  "aaudio_ResumeDevices s = called (Call_ResumeDevices aaudio) s"

definition aaudio_DetectBrokenPlayState :: "env \<Rightarrow> bool" where
  "aaudio_DetectBrokenPlayState e = DetectBrokenPlayState e"

definition set_egl_context :: "nat \<Rightarrow> st \<Rightarrow> st" where
  "set_egl_context ctx s =
     s\<lparr>Android_Window := map_option (\<lambda>window. window\<lparr>egl_context := ctx\<rparr>) (Android_Window s)\<rparr>"

definition set_backup_done :: "int \<Rightarrow> st \<Rightarrow> st" where
  "set_backup_done b s =
     s\<lparr>Android_Window := map_option (\<lambda>window. window\<lparr>backup_done := b\<rparr>) (Android_Window s)\<rparr>"

subsection \<open>\<^verbatim>\<open>android_egl_context_restore\<close> (lines 76-168)\<close>

text \<open>
  Lines 82-96: make the saved context current, or create a new one, and push
  \<^verbatim>\<open>SDL_RENDER_DEVICE_RESET\<close>; then the test of \<^verbatim>\<open>eglGetError()\<close>. The result of the
  second \<^verbatim>\<open>SDL_GL_MakeCurrent\<close> (line 85) is dropped, as in the code.
\<close>

definition restore_make_current :: "env \<Rightarrow> SDL_Window \<Rightarrow> st \<Rightarrow> st" where
  "restore_make_current e window s =
     (let (rc, s1) = SDL_GL_MakeCurrent e (egl_context window) s;
          s2 = (if rc < 0 then
                  (let (ctx, s3) = SDL_GL_CreateContext e s1;
                       s4 = set_egl_context ctx s3;
                       s5 = snd (SDL_GL_MakeCurrent e ctx s4)
                   in SDL_PushEvent RENDER_DEVICE_RESET s5)
                else s1);
          egl_err = eglGetError e
      in if egl_err = EGL_BAD_ALLOC \<or> egl_err = EGL_BAD_MATCH
         then SDL_PushEvent RENDER_DEVICE_RESET s2 else s2)"

text \<open>
  Lines 100-114: the four dimensions \<open>(surface_w, surface_h, device_w, device_h)\<close>, from
  the window and then from the native window when it reports a positive size.
\<close>

definition screen_size :: "SDL_Window \<Rightarrow> int \<times> int \<times> int \<times> int" where
  "screen_size window =
     (let surface_w = win_w window;
          surface_h = win_h window;
          device_w = surface_w;
          device_h = surface_h
      in case native_window window of
           None \<Rightarrow> (surface_w, surface_h, device_w, device_h)
         | Some nwin \<Rightarrow>
             (let nw = nw_width nwin; nh = nw_height nwin
              in if nw > 0 \<and> nh > 0 then (nw, nh, nw, nh)
                 else (surface_w, surface_h, device_w, device_h)))"

text \<open>Lines 124-128: the loop over the display modes, \<open>max_rate\<close> as the accumulator.\<close>

fun scan_display_modes :: "int \<Rightarrow> int list \<Rightarrow> int" where
  "scan_display_modes max_rate [] = max_rate"
| "scan_display_modes max_rate (refresh_rate # modes) =
     scan_display_modes (if refresh_rate > max_rate then refresh_rate else max_rate) modes"

text \<open>Lines 117-132: the highest refresh rate, 60 when none is positive.\<close>

definition highest_refresh_rate :: "SDL_VideoDisplay option \<Rightarrow> int" where
  "highest_refresh_rate disp =
     (let max_rate0 = 0;
          max_rate =
            (case disp of
               None \<Rightarrow> max_rate0
             | Some d \<Rightarrow>
                 scan_display_modes
                   (if desktop_mode_refresh_rate d > max_rate0
                    then desktop_mode_refresh_rate d else max_rate0)
                   (display_modes_refresh_rate d))
      in if max_rate \<le> 0 then 60 else max_rate)"

text \<open>Lines 135-140: the pixel format of the native window, when positive.\<close>

definition restore_format :: "SDL_Window \<Rightarrow> st \<Rightarrow> st" where
  "restore_format window s =
     (case native_window window of
        None \<Rightarrow> s
      | Some nwin \<Rightarrow>
          (let fmt = nw_format nwin
           in if fmt > 0 then called (Call_SetFormat fmt fmt) s else s))"

text \<open>
  Lines 143-154: the resolution is set and the resize sent when the surface size or the
  rate differs from the three statics, which then take the new values.
\<close>

definition restore_resolution :: "SDL_Window \<Rightarrow> st \<Rightarrow> st" where
  "restore_resolution window s =
     (case screen_size window of
        (surface_w, surface_h, device_w, device_h) \<Rightarrow>
          (let max_rate = highest_refresh_rate (display s);
               need_update = (surface_w \<noteq> prev_surface_w s \<or> surface_h \<noteq> prev_surface_h s
                              \<or> max_rate \<noteq> prev_rate s)
           in if need_update then
                (let s1 = called (Call_SetScreenResolution surface_w surface_h device_w device_h max_rate) s;
                     s2 = called Call_SendResize s1
                 in s2\<lparr>prev_surface_w := surface_w, prev_surface_h := surface_h,
                       prev_rate := max_rate\<rparr>)
              else s))"

text \<open>Lines 157-163: the swap interval saved at the pause, or 0.\<close>

definition restore_swap_interval :: "env \<Rightarrow> st \<Rightarrow> st" where
  "restore_swap_interval e s =
     (if saved_swap_interval s \<noteq> 0 then
        (let (rc, s1) = SDL_GL_SetSwapInterval e (saved_swap_interval s) s
         in if rc < 0 then snd (SDL_GL_SetSwapInterval e 0 s1) else s1)
      else snd (SDL_GL_SetSwapInterval e 0 s))"

definition android_egl_context_restore :: "env \<Rightarrow> st \<Rightarrow> st" where
  "android_egl_context_restore e s0 =
     (let s = called Call_context_restore s0
      in case Android_Window s of
           None \<Rightarrow> s
         | Some window \<Rightarrow>
             (let s1 = restore_make_current e window s;
                  s2 = restore_format window s1;
                  s3 = restore_resolution window s2;
                  s4 = restore_swap_interval e s3
              in set_backup_done 0 s4))"

subsection \<open>\<^verbatim>\<open>android_egl_context_backup\<close> (lines 170-181)\<close>

definition android_egl_context_backup :: "env \<Rightarrow> st \<Rightarrow> st" where
  "android_egl_context_backup e s0 =
     (let s = called Call_context_backup s0
      in case Android_Window s of
           None \<Rightarrow> s
         | Some window \<Rightarrow>
             (let s1 = set_egl_context (SDL_GL_GetCurrentContext s) s;
                  s2 = snd (SDL_GL_MakeCurrent e 0 s1)
              in set_backup_done 1 s2))"

subsection \<open>\<^verbatim>\<open>Android_PumpEvents_Blocking\<close> (lines 191-268)\<close>

text \<open>Lines 264-267 and 351-354: the workaround for a broken AAudio play state.\<close>

definition aaudio_workaround :: "env \<Rightarrow> st \<Rightarrow> st" where
  "aaudio_workaround e s =
     (if aaudio_DetectBrokenPlayState e then aaudio_ResumeDevices (aaudio_PauseDevices s) else s)"

text \<open>
  Lines 214-237: what the blocking pump does once \<^verbatim>\<open>SDL_SemWait\<close> has returned 0.
  \<open>isContextExternal\<close> is the local variable set at line 197.
\<close>

definition Blocking_resume :: "env \<Rightarrow> bool \<Rightarrow> st \<Rightarrow> st" where
  "Blocking_resume e isContextExternal s =
     (let s1 = s\<lparr>isPaused := False\<rparr>;
          s2 = SDL_SendAppEvent APP_WILLENTERFOREGROUND s1;
          s3 = SDL_SendAppEvent APP_DIDENTERFOREGROUND s2;
          s4 = SDL_SendWindowEvent WINDOWEVENT_RESTORED s3;
          s5 = aaudio_ResumeDevices (openslES_ResumeDevices (ANDROIDAUDIO_ResumeDevices s4));
          s6 = (if \<not> isContextExternal \<and> \<not> SDL_HasEvent QUIT s5
                then SDL_UnlockMutex (android_egl_context_restore e (SDL_LockMutex s5))
                else s5)
      in if IsTextInputActive e then called Call_StartTextInput s6 else s6)"

text \<open>
  Lines 243-260: the body of the \<^verbatim>\<open>if\<close> of line 240, entered when a pause is pending or
  the pause semaphore could be taken.
\<close>

definition Blocking_pause :: "st \<Rightarrow> st" where
  "Blocking_pause s =
     (let s1 = (if \<not> isPausing s then
                  (let s2 = s\<lparr>saved_swap_interval := SDL_GL_GetSwapInterval s\<rparr>;
                       s3 = SDL_SendWindowEvent WINDOWEVENT_MINIMIZED s2;
                       s4 = SDL_SendAppEvent APP_WILLENTERBACKGROUND s3
                   in SDL_SendAppEvent APP_DIDENTERBACKGROUND s4)
                else s)
      in if SDL_NumberOfEvents APP_DIDENTERBACKGROUND s1 > SDL_SemValue Android_PauseSem s1
         then s1\<lparr>isPausing := True\<rparr>
         else s1\<lparr>isPausing := False, isPaused := True\<rparr>)"

text \<open>
  A call of the blocking pump either returns, or is suspended in
  \<^verbatim>\<open>SDL_SemWait(Android_ResumeSem)\<close> (line 212) holding its local \<open>isContextExternal\<close>.
\<close>

datatype outcome = Returned st | Suspended bool st

text \<open>
  Line 212 onwards: the wait on the resume semaphore and the rest of the call. A
  suspended call is continued by \<open>Blocking_wait\<close> again, with the answers the external
  queries give by then.
\<close>

definition Blocking_wait :: "env \<Rightarrow> bool \<Rightarrow> st \<Rightarrow> outcome" where
  "Blocking_wait e isContextExternal s =
     (case SDL_SemWait Android_ResumeSem s of
        None \<Rightarrow> Suspended isContextExternal s
      | Some (rc, s1) \<Rightarrow>
          Returned (aaudio_workaround e
            (if rc = 0 then Blocking_resume e isContextExternal s1 else s1)))"

text \<open>
  Lines 197-211: the backup and the audio pause of a call entered in the paused state, up
  to the call of \<^verbatim>\<open>SDL_SemWait\<close>.
\<close>

definition Blocking_enter :: "env \<Rightarrow> st \<Rightarrow> st" where
  "Blocking_enter e s =
     (let isContextExternal = IsVideoContextExternal e;
          s1 = (if \<not> isContextExternal
                then SDL_UnlockMutex (android_egl_context_backup e (SDL_LockMutex s))
                else s);
          s2 = aaudio_PauseDevices (openslES_PauseDevices (ANDROIDAUDIO_PauseDevices s1))
      in called (Call_SemWait Android_ResumeSem) s2)"

definition Android_PumpEvents_Blocking :: "env \<Rightarrow> st \<Rightarrow> outcome" where
  "Android_PumpEvents_Blocking e s =
     (if isPaused s then
        Blocking_wait e (IsVideoContextExternal e) (Blocking_enter e s)
      else
        Returned (aaudio_workaround e
          (if isPausing s then Blocking_pause s
           else (let (rc, s1) = SDL_SemTryWait Android_PauseSem s
                 in if rc = 0 then Blocking_pause s1 else s1))))"

subsection \<open>\<^verbatim>\<open>Android_PumpEvents_NonBlocking\<close> (lines 270-355)\<close>

text \<open>Lines 301-326: a resume signal was taken.\<close>

definition NonBlocking_resume :: "env \<Rightarrow> bool \<Rightarrow> st \<Rightarrow> st" where
  "NonBlocking_resume e isContextExternal s =
     (let s1 = s\<lparr>isPaused := False\<rparr>;
          s2 = SDL_SendAppEvent APP_WILLENTERFOREGROUND s1;
          s3 = SDL_SendAppEvent APP_DIDENTERFOREGROUND s2;
          s4 = SDL_SendWindowEvent WINDOWEVENT_RESTORED s3;
          s5 = (if pauseAudio s4
                then aaudio_ResumeDevices (openslES_ResumeDevices (ANDROIDAUDIO_ResumeDevices s4))
                else s4);
          s6 = (if \<not> isContextExternal \<and> \<not> SDL_HasEvent QUIT s5
                then SDL_UnlockMutex (android_egl_context_restore e (SDL_LockMutex s5))
                else s5)
      in if IsTextInputActive e then called Call_StartTextInput s6 else s6)"

text \<open>Lines 279-296: the backup put off to the call after the one that paused.\<close>

definition NonBlocking_backup :: "env \<Rightarrow> bool \<Rightarrow> st \<Rightarrow> st" where
  "NonBlocking_backup e isContextExternal s =
     (if backup_context s then
        (let s1 = (if \<not> isContextExternal
                   then SDL_UnlockMutex (android_egl_context_backup e (SDL_LockMutex s))
                   else s);
             s2 = (if pauseAudio s1
                   then aaudio_PauseDevices (openslES_PauseDevices (ANDROIDAUDIO_PauseDevices s1))
                   else s1)
         in s2\<lparr>backup_context := False\<rparr>)
      else s)"

text \<open>Lines 332-347: the body of the \<^verbatim>\<open>if\<close> of line 329.\<close>

definition NonBlocking_pause :: "st \<Rightarrow> st" where
  "NonBlocking_pause s =
     (let s1 = (if \<not> isPausing s then
                  (let s3 = SDL_SendWindowEvent WINDOWEVENT_MINIMIZED s;
                       s4 = SDL_SendAppEvent APP_WILLENTERBACKGROUND s3
                   in SDL_SendAppEvent APP_DIDENTERBACKGROUND s4)
                else s)
      in if SDL_NumberOfEvents APP_DIDENTERBACKGROUND s1 > SDL_SemValue Android_PauseSem s1
         then s1\<lparr>isPausing := True\<rparr>
         else s1\<lparr>isPausing := False, isPaused := True, backup_context := True\<rparr>)"

definition Android_PumpEvents_NonBlocking :: "env \<Rightarrow> st \<Rightarrow> st" where
  "Android_PumpEvents_NonBlocking e s =
     aaudio_workaround e
       (if isPaused s then
          (let isContextExternal = IsVideoContextExternal e;
               s1 = NonBlocking_backup e isContextExternal s;
               (rc, s2) = SDL_SemTryWait Android_ResumeSem s1
           in if rc = 0 then NonBlocking_resume e isContextExternal s2 else s2)
        else
          (if isPausing s then NonBlocking_pause s
           else (let (rc, s1) = SDL_SemTryWait Android_PauseSem s
                 in if rc = 0 then NonBlocking_pause s1 else s1)))"

subsection \<open>The pump in its environment\<close>

text \<open>
  The host thread raises the two signals at any time (\<^verbatim>\<open>nativePause\<close> and
  \<^verbatim>\<open>nativeResume\<close> post the semaphores); the application takes events off the queue, may
  find a quit event queued, may set the swap interval, and calls the pump once in each
  iteration of its main loop. \<open>Tick e\<close> gives the main thread a turn: it calls the pump,
  or, when the last call is still suspended in \<^verbatim>\<open>SDL_SemWait\<close>, tries the wait again.
\<close>

datatype variant = Blocking | NonBlocking

datatype thread = Idle | Waiting bool

datatype action =
    RaisePause
  | RaiseResume
  | PostQuit
  | PollEvent
  | SetSwapInterval int
  | Tick env

fun of_outcome :: "outcome \<Rightarrow> thread \<times> st" where
  "of_outcome (Returned s) = (Idle, s)"
| "of_outcome (Suspended isContextExternal s) = (Waiting isContextExternal, s)"

fun step :: "variant \<Rightarrow> action \<Rightarrow> thread \<times> st \<Rightarrow> thread \<times> st" where
  "step v RaisePause (t, s) = (t, s\<lparr>PauseSem := PauseSem s + 1\<rparr>)"
| "step v RaiseResume (t, s) = (t, s\<lparr>ResumeSem := ResumeSem s + 1\<rparr>)"
| "step v PostQuit (t, s) = (t, s\<lparr>queue := queue s @ [QUIT]\<rparr>)"
| "step v PollEvent (t, s) = (t, s\<lparr>queue := tl (queue s)\<rparr>)"
| "step v (SetSwapInterval i) (t, s) = (t, s\<lparr>swap_interval := i\<rparr>)"
| "step Blocking (Tick e) (Idle, s) = of_outcome (Android_PumpEvents_Blocking e s)"
| "step Blocking (Tick e) (Waiting isContextExternal, s) =
     of_outcome (Blocking_wait e isContextExternal s)"
| "step NonBlocking (Tick e) (t, s) = (t, Android_PumpEvents_NonBlocking e s)"

fun run :: "variant \<Rightarrow> action list \<Rightarrow> thread \<times> st \<Rightarrow> thread \<times> st" where
  "run v [] c = c"
| "run v (a # as) c = run v as (step v a c)"

text \<open>The configurations a run goes through, the first one included.\<close>

fun trace :: "variant \<Rightarrow> action list \<Rightarrow> thread \<times> st \<Rightarrow> (thread \<times> st) list" where
  "trace v [] c = [c]"
| "trace v (a # as) c = c # trace v as (step v a c)"

text \<open>
  The state when the video driver starts: not paused, no pause pending, the statics at
  their initial 0, both semaphores at 0, nothing pushed or called yet.
\<close>

definition start :: "bool \<Rightarrow> SDL_Window option \<Rightarrow> SDL_VideoDisplay option \<Rightarrow> nat \<Rightarrow> int \<Rightarrow> st" where
  "start audio window disp ctx interval =
     \<lparr>isPaused = False, isPausing = False, pauseAudio = audio, backup_context = False,
      saved_swap_interval = 0, prev_surface_w = 0, prev_surface_h = 0, prev_rate = 0,
      Android_Window = window, display = disp, PauseSem = 0, ResumeSem = 0, queue = [],
      current_context = ctx, swap_interval = interval, emitted = [], calls = []\<rparr>"

subsection \<open>Observations on a state\<close>

text \<open>
  The calls the properties below count or forbid: the blocking wait, the resolution and
  resize calls, and the entries of the backup and of the restore. Every other call is
  \<open>plain\<close>, and \<open>marks\<close> is the log without the plain calls.
\<close>

fun plain :: "call \<Rightarrow> bool" where
  "plain (Call_SemWait m) = False"
| "plain (Call_SetScreenResolution sw sh dw dh r) = False"
| "plain Call_SendResize = False"
| "plain Call_context_backup = False"
| "plain Call_context_restore = False"
| "plain c = True"

definition marks :: "st \<Rightarrow> call list" where
  "marks s = filter (\<lambda>c. \<not> plain c) (calls s)"

text \<open>
  The geometry a restore finds, \<open>(surface_w, surface_h, max_rate)\<close>, and the last
  geometry applied, which the three statics of lines 143-145 hold.
\<close>

definition geometry :: "SDL_Window \<Rightarrow> st \<Rightarrow> int \<times> int \<times> int" where
  "geometry window s =
     (case screen_size window of
        (surface_w, surface_h, device_w, device_h) \<Rightarrow>
          (surface_w, surface_h, highest_refresh_rate (display s)))"

definition memo :: "st \<Rightarrow> int \<times> int \<times> int" where
  "memo s = (prev_surface_w s, prev_surface_h s, prev_rate s)"

text \<open>
  The two calls of lines 149-150, and what one restore calls of them (lines 147-154).
\<close>

definition resolution_push :: "SDL_Window \<Rightarrow> st \<Rightarrow> call list" where
  "resolution_push window s =
     (case screen_size window of
        (surface_w, surface_h, device_w, device_h) \<Rightarrow>
          [Call_SetScreenResolution surface_w surface_h device_w device_h
             (highest_refresh_rate (display s)),
           Call_SendResize])"

definition resolution_calls :: "SDL_Window \<Rightarrow> st \<Rightarrow> call list" where
  "resolution_calls window s =
     (if geometry window s \<noteq> memo s then resolution_push window s else [])"

text \<open>
  The marks of the restore that a resume runs (lines 227-231 and 316-320), with the local
  \<open>isContextExternal\<close>: none when the context is external or a quit event is queued.
\<close>

definition restore_marks :: "bool \<Rightarrow> st \<Rightarrow> call list" where
  "restore_marks isContextExternal s =
     (if \<not> isContextExternal \<and> QUIT \<notin> set (queue s) then
        Call_context_restore #
          (case Android_Window s of None \<Rightarrow> [] | Some window \<Rightarrow> resolution_calls window s)
      else [])"

text \<open>The calls that push something to the windowing layer.\<close>

fun windowing :: "call \<Rightarrow> bool" where
  "windowing (Call_SetScreenResolution sw sh dw dh r) = True"
| "windowing Call_SendResize = True"
| "windowing c = False"

text \<open>A resolution call whose device size is its surface size.\<close>

fun device_is_surface :: "call \<Rightarrow> bool" where
  "device_is_surface (Call_SetScreenResolution sw sh dw dh r) = (dw = sw \<and> dh = sh)"
| "device_is_surface c = True"

fun is_SemWait :: "call \<Rightarrow> bool" where
  "is_SemWait (Call_SemWait m) = True"
| "is_SemWait c = False"

text \<open>The number of \<^verbatim>\<open>SDL_RENDER_DEVICE_RESET\<close> events of one restore (lines 82-96).\<close>

definition reset_count :: "env \<Rightarrow> SDL_Window \<Rightarrow> nat" where
  "reset_count e window =
     (if MakeCurrent_ok e (egl_context window) then 0 else 1) +
     (if eglGetError e = EGL_BAD_ALLOC \<or> eglGetError e = EGL_BAD_MATCH then 1 else 0)"

text \<open>
  Reading the stream of pushed events from the oldest: \<open>Some True\<close> after a
  \<open>APP_DIDENTERBACKGROUND\<close> that no \<open>APP_DIDENTERFOREGROUND\<close> has followed yet,
  \<open>Some False\<close> when there is none, and \<open>None\<close> once a foreground event came with no
  background event open, or a background event came while one was open.
\<close>

fun track :: "bool option \<Rightarrow> event \<Rightarrow> bool option" where
  "track None ev = None"
| "track (Some bg) ev =
     (if ev = APP_DIDENTERBACKGROUND then (if bg then None else Some True)
      else if ev = APP_DIDENTERFOREGROUND then (if bg then Some False else None)
      else Some bg)"

definition phase :: "st \<Rightarrow> bool option" where
  "phase s = foldl track (Some False) (emitted s)"

text \<open>
  The pause commitments (\<open>isPaused\<close> goes from false to true) and the resume
  commitments (from true to false) along the configurations of a run.
\<close>

fun pause_commits :: "(thread \<times> st) list \<Rightarrow> nat" where
  "pause_commits (c # c' # cs) =
     (if \<not> isPaused (snd c) \<and> isPaused (snd c') then 1 else 0) + pause_commits (c' # cs)"
| "pause_commits cs = 0"

fun resume_commits :: "(thread \<times> st) list \<Rightarrow> nat" where
  "resume_commits (c # c' # cs) =
     (if isPaused (snd c) \<and> \<not> isPaused (snd c') then 1 else 0) + resume_commits (c' # cs)"
| "resume_commits cs = 0"

text \<open>
  The main thread is suspended only in the blocking pump, and only while paused.
\<close>

definition thread_inv :: "variant \<Rightarrow> thread \<times> st \<Rightarrow> bool" where
  "thread_inv v c = (fst c = Idle \<or> (v = Blocking \<and> isPaused (snd c)))"

text \<open>
  A background event is open exactly while the state is paused or pausing, and the state
  is never both.
\<close>

definition lifecycle_inv :: "variant \<Rightarrow> thread \<times> st \<Rightarrow> bool" where
  "lifecycle_inv v c =
     (phase (snd c) = Some (isPaused (snd c) \<or> isPausing (snd c))
      \<and> (isPaused (snd c) \<or> isPausing (snd c)) = (isPaused (snd c) \<noteq> isPausing (snd c))
      \<and> thread_inv v c)"

text \<open>
  The backup a pause commitment has not run yet: the flag of the non-blocking pump, or a
  paused state from which the blocking pump has not been called yet.
\<close>

definition backup_due :: "variant \<Rightarrow> thread \<times> st \<Rightarrow> nat" where
  "backup_due v c =
     (case v of
        NonBlocking \<Rightarrow> (if backup_context (snd c) then 1 else 0)
      | Blocking \<Rightarrow> (if isPaused (snd c) \<and> fst c = Idle then 1 else 0))"

subsection \<open>Concrete scenarios\<close>

text \<open>
  A portrait phone: a window of 800 x 600 whose native surface is 1080 x 1920, a display
  of 60 Hz with the modes 60, 90 and 120 Hz, the context 7 current and the swap interval 1.
\<close>

definition ex_window :: SDL_Window where
  "ex_window =
     \<lparr>win_w = 800, win_h = 600, egl_context = 7, backup_done = 0,
      native_window = Some \<lparr>nw_width = 1080, nw_height = 1920, nw_format = 4\<rparr>\<rparr>"

definition ex_display :: SDL_VideoDisplay where
  "ex_display = \<lparr>desktop_mode_refresh_rate = 60, display_modes_refresh_rate = [60, 90, 120]\<rparr>"

definition ex_state :: st where
  "ex_state = start True (Some ex_window) (Some ex_display) 7 1"

text \<open>Every external call succeeds and \<^verbatim>\<open>eglGetError\<close> answers \<^verbatim>\<open>EGL_SUCCESS\<close>.\<close>

definition ex_env :: env where
  "ex_env =
     \<lparr>IsVideoContextExternal = False, MakeCurrent_ok = (\<lambda>ctx. True), CreateContext_result = 8,
      eglGetError_result = 12288, SetSwapInterval_ok = (\<lambda>i. True), IsTextInputActive = False,
      DetectBrokenPlayState = False\<rparr>"

text \<open>
  The saved context 7 was lost in the background; the new context 8 can be made current.
\<close>

definition ex_env_lost :: env where
  "ex_env_lost = ex_env\<lparr>MakeCurrent_ok := (\<lambda>ctx. ctx \<noteq> 7)\<rparr>"

text \<open>
  No context can be made current, and \<^verbatim>\<open>eglGetError\<close> answers \<^verbatim>\<open>EGL_BAD_ALLOC\<close>.
\<close>

definition ex_env_bad_alloc :: env where
  "ex_env_bad_alloc = ex_env\<lparr>MakeCurrent_ok := (\<lambda>ctx. False), eglGetError_result := 12291\<rparr>"

text \<open>
  One pause and resume: the host pauses, the pump sees it, the application takes the
  three events off the queue, the pump commits to the pause and is called once more, the
  host resumes, the pump is called again, and the application takes the three events.
\<close>

definition ex_cycle :: "env \<Rightarrow> action list" where
  "ex_cycle e =
     [RaisePause, Tick e, PollEvent, PollEvent, PollEvent, Tick e, Tick e,
      RaiseResume, Tick e, PollEvent, PollEvent, PollEvent]"

text \<open>
  The first half of it: up to the call of the pump that commits to the pause. No resume
  signal is raised.
\<close>

definition ex_pause :: "env \<Rightarrow> action list" where
  "ex_pause e = [RaisePause, Tick e, PollEvent, PollEvent, PollEvent, Tick e]"

section \<open>Lemmas on the blocks of the restore and of the backup\<close>

lemmas prim_defs = called_def SDL_PushEvent_def SDL_SendAppEvent_def SDL_SendWindowEvent_def
  SDL_HasEvent_def SDL_NumberOfEvents_def SDL_SemValue_def sem_take_def SDL_SemTryWait_def
  SDL_SemWait_def SDL_GL_GetCurrentContext_def SDL_GL_MakeCurrent_def SDL_GL_CreateContext_def
  SDL_GL_GetSwapInterval_def SDL_GL_SetSwapInterval_def SDL_LockMutex_def
  SDL_UnlockMutex_def ANDROIDAUDIO_PauseDevices_def ANDROIDAUDIO_ResumeDevices_def
  openslES_PauseDevices_def openslES_ResumeDevices_def aaudio_PauseDevices_def
  aaudio_ResumeDevices_def aaudio_DetectBrokenPlayState_def set_egl_context_def set_backup_done_def

lemma called_frame:
  "isPaused (called c s) = isPaused s"
  "isPausing (called c s) = isPausing s"
  "pauseAudio (called c s) = pauseAudio s"
  "backup_context (called c s) = backup_context s"
  "saved_swap_interval (called c s) = saved_swap_interval s"
  "prev_surface_w (called c s) = prev_surface_w s"
  "prev_surface_h (called c s) = prev_surface_h s"
  "prev_rate (called c s) = prev_rate s"
  "Android_Window (called c s) = Android_Window s"
  "display (called c s) = display s"
  "PauseSem (called c s) = PauseSem s"
  "ResumeSem (called c s) = ResumeSem s"
  "queue (called c s) = queue s"
  "current_context (called c s) = current_context s"
  "swap_interval (called c s) = swap_interval s"
  "emitted (called c s) = emitted s"
  "marks (called c s) = marks s @ (if plain c then [] else [c])"
  by (simp_all add: called_def marks_def)

lemma set_backup_done_frame:
  "isPaused (set_backup_done b s) = isPaused s"
  "isPausing (set_backup_done b s) = isPausing s"
  "pauseAudio (set_backup_done b s) = pauseAudio s"
  "backup_context (set_backup_done b s) = backup_context s"
  "saved_swap_interval (set_backup_done b s) = saved_swap_interval s"
  "prev_surface_w (set_backup_done b s) = prev_surface_w s"
  "prev_surface_h (set_backup_done b s) = prev_surface_h s"
  "prev_rate (set_backup_done b s) = prev_rate s"
  "display (set_backup_done b s) = display s"
  "PauseSem (set_backup_done b s) = PauseSem s"
  "ResumeSem (set_backup_done b s) = ResumeSem s"
  "queue (set_backup_done b s) = queue s"
  "current_context (set_backup_done b s) = current_context s"
  "swap_interval (set_backup_done b s) = swap_interval s"
  "emitted (set_backup_done b s) = emitted s"
  "marks (set_backup_done b s) = marks s"
  by (simp_all add: set_backup_done_def marks_def)

lemma set_egl_context_frame:
  "isPaused (set_egl_context c s) = isPaused s"
  "isPausing (set_egl_context c s) = isPausing s"
  "pauseAudio (set_egl_context c s) = pauseAudio s"
  "backup_context (set_egl_context c s) = backup_context s"
  "saved_swap_interval (set_egl_context c s) = saved_swap_interval s"
  "prev_surface_w (set_egl_context c s) = prev_surface_w s"
  "prev_surface_h (set_egl_context c s) = prev_surface_h s"
  "prev_rate (set_egl_context c s) = prev_rate s"
  "display (set_egl_context c s) = display s"
  "PauseSem (set_egl_context c s) = PauseSem s"
  "ResumeSem (set_egl_context c s) = ResumeSem s"
  "queue (set_egl_context c s) = queue s"
  "current_context (set_egl_context c s) = current_context s"
  "swap_interval (set_egl_context c s) = swap_interval s"
  "emitted (set_egl_context c s) = emitted s"
  "marks (set_egl_context c s) = marks s"
  by (simp_all add: set_egl_context_def marks_def)

lemma restore_make_current_frame:
  "isPaused (restore_make_current e w s) = isPaused s"
  "isPausing (restore_make_current e w s) = isPausing s"
  "pauseAudio (restore_make_current e w s) = pauseAudio s"
  "backup_context (restore_make_current e w s) = backup_context s"
  "saved_swap_interval (restore_make_current e w s) = saved_swap_interval s"
  "prev_surface_w (restore_make_current e w s) = prev_surface_w s"
  "prev_surface_h (restore_make_current e w s) = prev_surface_h s"
  "prev_rate (restore_make_current e w s) = prev_rate s"
  "display (restore_make_current e w s) = display s"
  "PauseSem (restore_make_current e w s) = PauseSem s"
  "ResumeSem (restore_make_current e w s) = ResumeSem s"
  "swap_interval (restore_make_current e w s) = swap_interval s"
  "marks (restore_make_current e w s) = marks s"
  by (simp_all add: restore_make_current_def prim_defs marks_def Let_def split: prod.split)

lemma restore_make_current_emitted:
  "emitted (restore_make_current e w s) = emitted s @ replicate (reset_count e w) RENDER_DEVICE_RESET"
  "queue (restore_make_current e w s) = queue s @ replicate (reset_count e w) RENDER_DEVICE_RESET"
  by (simp_all add: restore_make_current_def prim_defs reset_count_def Let_def split: prod.split)

lemma restore_make_current_calls:
  "calls (restore_make_current e w s) =
     calls s @ Call_GL_MakeCurrent (egl_context w) #
       (if MakeCurrent_ok e (egl_context w) then []
        else [Call_GL_CreateContext, Call_GL_MakeCurrent (CreateContext_result e)])"
  by (simp add: restore_make_current_def prim_defs Let_def split: prod.split)

lemma restore_make_current_context:
  "Android_Window (restore_make_current e w s) =
     (if MakeCurrent_ok e (egl_context w) then Android_Window s
      else map_option (\<lambda>x. x\<lparr>egl_context := CreateContext_result e\<rparr>) (Android_Window s))"
  "current_context (restore_make_current e w s) =
     (if MakeCurrent_ok e (egl_context w) then egl_context w
      else if MakeCurrent_ok e (CreateContext_result e) then CreateContext_result e
      else current_context s)"
  by (simp_all add: restore_make_current_def prim_defs Let_def split: prod.split)

lemma restore_format_frame:
  "isPaused (restore_format w s) = isPaused s"
  "isPausing (restore_format w s) = isPausing s"
  "pauseAudio (restore_format w s) = pauseAudio s"
  "backup_context (restore_format w s) = backup_context s"
  "saved_swap_interval (restore_format w s) = saved_swap_interval s"
  "prev_surface_w (restore_format w s) = prev_surface_w s"
  "prev_surface_h (restore_format w s) = prev_surface_h s"
  "prev_rate (restore_format w s) = prev_rate s"
  "Android_Window (restore_format w s) = Android_Window s"
  "display (restore_format w s) = display s"
  "PauseSem (restore_format w s) = PauseSem s"
  "ResumeSem (restore_format w s) = ResumeSem s"
  "queue (restore_format w s) = queue s"
  "current_context (restore_format w s) = current_context s"
  "swap_interval (restore_format w s) = swap_interval s"
  "emitted (restore_format w s) = emitted s"
  "marks (restore_format w s) = marks s"
  by (simp_all add: restore_format_def prim_defs marks_def Let_def split: option.split)

lemma restore_format_calls:
  "calls (restore_format w s) =
     calls s @
       (case native_window w of
          None \<Rightarrow> []
        | Some nwin \<Rightarrow>
            if nw_format nwin > 0 then [Call_SetFormat (nw_format nwin) (nw_format nwin)] else [])"
  by (simp add: restore_format_def prim_defs Let_def split: option.split)

lemma restore_resolution_frame:
  "isPaused (restore_resolution w s) = isPaused s"
  "isPausing (restore_resolution w s) = isPausing s"
  "pauseAudio (restore_resolution w s) = pauseAudio s"
  "backup_context (restore_resolution w s) = backup_context s"
  "saved_swap_interval (restore_resolution w s) = saved_swap_interval s"
  "Android_Window (restore_resolution w s) = Android_Window s"
  "display (restore_resolution w s) = display s"
  "PauseSem (restore_resolution w s) = PauseSem s"
  "ResumeSem (restore_resolution w s) = ResumeSem s"
  "queue (restore_resolution w s) = queue s"
  "current_context (restore_resolution w s) = current_context s"
  "swap_interval (restore_resolution w s) = swap_interval s"
  "emitted (restore_resolution w s) = emitted s"
  by (simp_all add: restore_resolution_def prim_defs Let_def split: prod.split)

lemma restore_resolution_calls:
  "calls (restore_resolution w s) = calls s @ resolution_calls w s"
  "marks (restore_resolution w s) = marks s @ resolution_calls w s"
  by (simp_all add: restore_resolution_def resolution_calls_def resolution_push_def geometry_def memo_def prim_defs
      marks_def Let_def split: prod.split)

lemma restore_resolution_memo:
  "memo (restore_resolution w s) = geometry w s"
  by (auto simp add: restore_resolution_def geometry_def memo_def prim_defs
      Let_def split: prod.split)

lemma restore_swap_interval_frame:
  "isPaused (restore_swap_interval e s) = isPaused s"
  "isPausing (restore_swap_interval e s) = isPausing s"
  "pauseAudio (restore_swap_interval e s) = pauseAudio s"
  "backup_context (restore_swap_interval e s) = backup_context s"
  "saved_swap_interval (restore_swap_interval e s) = saved_swap_interval s"
  "prev_surface_w (restore_swap_interval e s) = prev_surface_w s"
  "prev_surface_h (restore_swap_interval e s) = prev_surface_h s"
  "prev_rate (restore_swap_interval e s) = prev_rate s"
  "Android_Window (restore_swap_interval e s) = Android_Window s"
  "display (restore_swap_interval e s) = display s"
  "PauseSem (restore_swap_interval e s) = PauseSem s"
  "ResumeSem (restore_swap_interval e s) = ResumeSem s"
  "queue (restore_swap_interval e s) = queue s"
  "current_context (restore_swap_interval e s) = current_context s"
  "emitted (restore_swap_interval e s) = emitted s"
  "marks (restore_swap_interval e s) = marks s"
  by (simp_all add: restore_swap_interval_def prim_defs marks_def Let_def split: prod.split)

lemma restore_swap_interval_calls:
  "calls (restore_swap_interval e s) =
     calls s @
       (if saved_swap_interval s \<noteq> 0 then
          Call_GL_SetSwapInterval (saved_swap_interval s) #
            (if SetSwapInterval_ok e (saved_swap_interval s) then []
             else [Call_GL_SetSwapInterval 0])
        else [Call_GL_SetSwapInterval 0])"
  by (simp add: restore_swap_interval_def prim_defs Let_def split: prod.split)

lemma restore_swap_interval_result:
  "swap_interval (restore_swap_interval e s) =
     (if SetSwapInterval_ok e (saved_swap_interval s) then saved_swap_interval s
      else if SetSwapInterval_ok e 0 then 0 else swap_interval s)"
  by (simp add: restore_swap_interval_def prim_defs Let_def split: prod.split)

lemmas restore_block_frames = restore_make_current_frame restore_format_frame
  restore_resolution_frame restore_swap_interval_frame

lemma geometry_frame:
  "display s' = display s \<Longrightarrow> geometry w s' = geometry w s"
  by (simp add: geometry_def)

lemma memo_frame:
  "prev_surface_w s' = prev_surface_w s \<Longrightarrow> prev_surface_h s' = prev_surface_h s \<Longrightarrow>
   prev_rate s' = prev_rate s \<Longrightarrow> memo s' = memo s"
  by (simp add: memo_def)

lemma resolution_calls_frame:
  "display s' = display s \<Longrightarrow> prev_surface_w s' = prev_surface_w s \<Longrightarrow>
   prev_surface_h s' = prev_surface_h s \<Longrightarrow> prev_rate s' = prev_rate s \<Longrightarrow>
   resolution_calls w s' = resolution_calls w s"
  by (simp add: resolution_calls_def resolution_push_def geometry_def memo_def)

lemma android_egl_context_restore_frame:
  "isPaused (android_egl_context_restore e s) = isPaused s"
  "isPausing (android_egl_context_restore e s) = isPausing s"
  "pauseAudio (android_egl_context_restore e s) = pauseAudio s"
  "backup_context (android_egl_context_restore e s) = backup_context s"
  "saved_swap_interval (android_egl_context_restore e s) = saved_swap_interval s"
  "display (android_egl_context_restore e s) = display s"
  "PauseSem (android_egl_context_restore e s) = PauseSem s"
  "ResumeSem (android_egl_context_restore e s) = ResumeSem s"
  by (simp_all add: android_egl_context_restore_def restore_block_frames called_frame
      set_backup_done_frame Let_def split: option.split)

lemma android_egl_context_restore_emitted:
  "emitted (android_egl_context_restore e s) =
     emitted s @ (case Android_Window s of None \<Rightarrow> []
                  | Some w \<Rightarrow> replicate (reset_count e w) RENDER_DEVICE_RESET)"
  "queue (android_egl_context_restore e s) =
     queue s @ (case Android_Window s of None \<Rightarrow> []
                | Some w \<Rightarrow> replicate (reset_count e w) RENDER_DEVICE_RESET)"
  by (simp_all add: android_egl_context_restore_def restore_block_frames
      restore_make_current_emitted called_frame set_backup_done_frame Let_def split: option.split)

lemma android_egl_context_restore_marks:
  "marks (android_egl_context_restore e s) =
     marks s @ Call_context_restore #
       (case Android_Window s of None \<Rightarrow> [] | Some w \<Rightarrow> resolution_calls w s)"
proof (cases "Android_Window s")
  case None
  then show ?thesis
    by (simp add: android_egl_context_restore_def called_frame)
next
  case (Some w)
  let ?s0 = "called Call_context_restore s"
  let ?s2 = "restore_format w (restore_make_current e w ?s0)"
  have r: "resolution_calls w ?s2 = resolution_calls w s"
    by (rule resolution_calls_frame) (simp_all add: restore_block_frames called_frame)
  show ?thesis using Some
    by (simp add: android_egl_context_restore_def Let_def set_backup_done_frame
        restore_block_frames restore_resolution_calls r called_frame)
qed

lemma android_egl_context_restore_memo:
  "memo (android_egl_context_restore e s) =
     (case Android_Window s of None \<Rightarrow> memo s | Some w \<Rightarrow> geometry w s)"
proof (cases "Android_Window s")
  case None
  then have "android_egl_context_restore e s = called Call_context_restore s"
    by (simp add: android_egl_context_restore_def called_frame)
  moreover have "memo (called Call_context_restore s) = memo s"
    by (rule memo_frame) (simp_all add: called_frame)
  ultimately show ?thesis using None by simp
next
  case (Some w)
  let ?s0 = "called Call_context_restore s"
  let ?s2 = "restore_format w (restore_make_current e w ?s0)"
  let ?s3 = "restore_resolution w ?s2"
  have g: "geometry w ?s2 = geometry w s"
    by (rule geometry_frame) (simp add: restore_block_frames called_frame)
  have "memo (set_backup_done 0 (restore_swap_interval e ?s3)) = memo ?s3"
    by (rule memo_frame) (simp_all add: restore_block_frames set_backup_done_frame)
  then show ?thesis using Some g
    by (simp add: android_egl_context_restore_def Let_def restore_resolution_memo called_frame)
qed

lemma android_egl_context_backup_frame:
  "isPaused (android_egl_context_backup e s) = isPaused s"
  "isPausing (android_egl_context_backup e s) = isPausing s"
  "pauseAudio (android_egl_context_backup e s) = pauseAudio s"
  "backup_context (android_egl_context_backup e s) = backup_context s"
  "saved_swap_interval (android_egl_context_backup e s) = saved_swap_interval s"
  "prev_surface_w (android_egl_context_backup e s) = prev_surface_w s"
  "prev_surface_h (android_egl_context_backup e s) = prev_surface_h s"
  "prev_rate (android_egl_context_backup e s) = prev_rate s"
  "display (android_egl_context_backup e s) = display s"
  "PauseSem (android_egl_context_backup e s) = PauseSem s"
  "ResumeSem (android_egl_context_backup e s) = ResumeSem s"
  "queue (android_egl_context_backup e s) = queue s"
  "swap_interval (android_egl_context_backup e s) = swap_interval s"
  "emitted (android_egl_context_backup e s) = emitted s"
  "marks (android_egl_context_backup e s) = marks s @ [Call_context_backup]"
  by (simp_all add: android_egl_context_backup_def prim_defs marks_def
      Let_def split: option.split)

section \<open>Lemmas on the blocks of the pumps\<close>

lemma marks_update:
  "marks (s\<lparr>isPaused := b\<rparr>) = marks s"
  "marks (s\<lparr>isPausing := b\<rparr>) = marks s"
  "marks (s\<lparr>backup_context := b\<rparr>) = marks s"
  "marks (s\<lparr>saved_swap_interval := i\<rparr>) = marks s"
  "marks (s\<lparr>PauseSem := n\<rparr>) = marks s"
  "marks (s\<lparr>ResumeSem := n\<rparr>) = marks s"
  "marks (s\<lparr>queue := q\<rparr>) = marks s"
  "marks (s\<lparr>swap_interval := i\<rparr>) = marks s"
  by (simp_all add: marks_def)

lemma SDL_PushEvent_frame:
  "isPaused (SDL_PushEvent ev s) = isPaused s"
  "isPausing (SDL_PushEvent ev s) = isPausing s"
  "pauseAudio (SDL_PushEvent ev s) = pauseAudio s"
  "backup_context (SDL_PushEvent ev s) = backup_context s"
  "saved_swap_interval (SDL_PushEvent ev s) = saved_swap_interval s"
  "prev_surface_w (SDL_PushEvent ev s) = prev_surface_w s"
  "prev_surface_h (SDL_PushEvent ev s) = prev_surface_h s"
  "prev_rate (SDL_PushEvent ev s) = prev_rate s"
  "Android_Window (SDL_PushEvent ev s) = Android_Window s"
  "display (SDL_PushEvent ev s) = display s"
  "PauseSem (SDL_PushEvent ev s) = PauseSem s"
  "ResumeSem (SDL_PushEvent ev s) = ResumeSem s"
  "current_context (SDL_PushEvent ev s) = current_context s"
  "swap_interval (SDL_PushEvent ev s) = swap_interval s"
  "marks (SDL_PushEvent ev s) = marks s"
  "emitted (SDL_PushEvent ev s) = emitted s @ [ev]"
  "queue (SDL_PushEvent ev s) = queue s @ [ev]"
  by (simp_all add: SDL_PushEvent_def marks_def)

lemmas audio_defs = ANDROIDAUDIO_PauseDevices_def ANDROIDAUDIO_ResumeDevices_def
  openslES_PauseDevices_def openslES_ResumeDevices_def aaudio_PauseDevices_def
  aaudio_ResumeDevices_def SDL_LockMutex_def SDL_UnlockMutex_def

lemma aaudio_workaround_frame:
  "isPaused (aaudio_workaround e s) = isPaused s"
  "isPausing (aaudio_workaround e s) = isPausing s"
  "pauseAudio (aaudio_workaround e s) = pauseAudio s"
  "backup_context (aaudio_workaround e s) = backup_context s"
  "saved_swap_interval (aaudio_workaround e s) = saved_swap_interval s"
  "prev_surface_w (aaudio_workaround e s) = prev_surface_w s"
  "prev_surface_h (aaudio_workaround e s) = prev_surface_h s"
  "prev_rate (aaudio_workaround e s) = prev_rate s"
  "Android_Window (aaudio_workaround e s) = Android_Window s"
  "display (aaudio_workaround e s) = display s"
  "PauseSem (aaudio_workaround e s) = PauseSem s"
  "ResumeSem (aaudio_workaround e s) = ResumeSem s"
  "queue (aaudio_workaround e s) = queue s"
  "current_context (aaudio_workaround e s) = current_context s"
  "swap_interval (aaudio_workaround e s) = swap_interval s"
  "emitted (aaudio_workaround e s) = emitted s"
  "marks (aaudio_workaround e s) = marks s"
  by (simp_all add: aaudio_workaround_def audio_defs called_frame)

lemma phase_frame:
  "emitted s' = emitted s \<Longrightarrow> phase s' = phase s"
  by (simp add: phase_def)

lemma phase_aaudio_workaround:
  "phase (aaudio_workaround e s) = phase s"
  by (rule phase_frame) (simp add: aaudio_workaround_frame)

lemma SDL_SemTryWait_rc:
  "fst (SDL_SemTryWait m s) = (if SDL_SemValue m s = 0 then 1 else 0)"
  by (simp add: SDL_SemTryWait_def SDL_SemValue_def called_def Let_def split: sem.split)

lemma SDL_SemTryWait_frame:
  "isPaused (snd (SDL_SemTryWait m s)) = isPaused s"
  "isPausing (snd (SDL_SemTryWait m s)) = isPausing s"
  "pauseAudio (snd (SDL_SemTryWait m s)) = pauseAudio s"
  "backup_context (snd (SDL_SemTryWait m s)) = backup_context s"
  "saved_swap_interval (snd (SDL_SemTryWait m s)) = saved_swap_interval s"
  "prev_surface_w (snd (SDL_SemTryWait m s)) = prev_surface_w s"
  "prev_surface_h (snd (SDL_SemTryWait m s)) = prev_surface_h s"
  "prev_rate (snd (SDL_SemTryWait m s)) = prev_rate s"
  "Android_Window (snd (SDL_SemTryWait m s)) = Android_Window s"
  "display (snd (SDL_SemTryWait m s)) = display s"
  "queue (snd (SDL_SemTryWait m s)) = queue s"
  "current_context (snd (SDL_SemTryWait m s)) = current_context s"
  "swap_interval (snd (SDL_SemTryWait m s)) = swap_interval s"
  "emitted (snd (SDL_SemTryWait m s)) = emitted s"
  "marks (snd (SDL_SemTryWait m s)) = marks s"
  by (simp_all add: SDL_SemTryWait_def SDL_SemValue_def sem_take_def called_def marks_def
      Let_def split: sem.split)

lemma SDL_SemTryWait_count:
  "PauseSem (snd (SDL_SemTryWait Android_PauseSem s)) = PauseSem s - 1"
  "ResumeSem (snd (SDL_SemTryWait Android_PauseSem s)) = ResumeSem s"
  "PauseSem (snd (SDL_SemTryWait Android_ResumeSem s)) = PauseSem s"
  "ResumeSem (snd (SDL_SemTryWait Android_ResumeSem s)) = ResumeSem s - 1"
  by (simp_all add: SDL_SemTryWait_def SDL_SemValue_def sem_take_def called_frame Let_def)

lemma phase_SDL_SemTryWait:
  "phase (snd (SDL_SemTryWait m s)) = phase s"
  by (rule phase_frame) (simp add: SDL_SemTryWait_frame)

lemma track_replicate_reset:
  "foldl track q (replicate n RENDER_DEVICE_RESET) = q"
proof (induction n)
  case 0
  show ?case by simp
next
  case (Suc n)
  have "track q RENDER_DEVICE_RESET = q" by (cases q) simp_all
  with Suc show ?case by simp
qed

lemma track_other:
  "ev \<noteq> APP_DIDENTERBACKGROUND \<Longrightarrow> ev \<noteq> APP_DIDENTERFOREGROUND \<Longrightarrow> track q ev = q"
  by (cases q) simp_all

lemma phase_restore:
  "phase (android_egl_context_restore e s) = phase s"
  by (simp add: phase_def android_egl_context_restore_emitted track_replicate_reset
      split: option.split)

lemma Blocking_resume_frame:
  "isPausing (Blocking_resume e x s) = isPausing s"
  "pauseAudio (Blocking_resume e x s) = pauseAudio s"
  "backup_context (Blocking_resume e x s) = backup_context s"
  "saved_swap_interval (Blocking_resume e x s) = saved_swap_interval s"
  "display (Blocking_resume e x s) = display s"
  "PauseSem (Blocking_resume e x s) = PauseSem s"
  "ResumeSem (Blocking_resume e x s) = ResumeSem s"
  "isPaused (Blocking_resume e x s) = False"
  by (simp_all add: Blocking_resume_def Let_def audio_defs SDL_SendAppEvent_def
      SDL_SendWindowEvent_def called_frame SDL_PushEvent_frame android_egl_context_restore_frame)

lemma Blocking_resume_phase:
  "phase (Blocking_resume e x s) = track (phase s) APP_DIDENTERFOREGROUND"
proof -
  let ?s1 = "s\<lparr>isPaused := False\<rparr>"
  let ?s4 = "SDL_SendWindowEvent WINDOWEVENT_RESTORED
     (SDL_SendAppEvent APP_DIDENTERFOREGROUND (SDL_SendAppEvent APP_WILLENTERFOREGROUND ?s1))"
  have "emitted ?s4 = emitted s @ [APP_WILLENTERFOREGROUND, APP_DIDENTERFOREGROUND, WINDOWEVENT_RESTORED]"
    by (simp add: SDL_SendAppEvent_def SDL_SendWindowEvent_def SDL_PushEvent_frame)
  then have p4: "phase ?s4 = track (phase s) APP_DIDENTERFOREGROUND"
    by (simp add: phase_def track_other)
  show ?thesis
    by (simp add: Blocking_resume_def Let_def audio_defs phase_restore
        phase_frame [OF called_frame(16)] p4)
qed

lemma Blocking_resume_marks:
  "marks (Blocking_resume e x s) =
     marks s @
       (if \<not> x \<and> QUIT \<notin> set (queue s) then
          Call_context_restore #
            (case Android_Window s of None \<Rightarrow> [] | Some w \<Rightarrow> resolution_calls w s)
        else [])"
proof -
  let ?s1 = "s\<lparr>isPaused := False\<rparr>"
  let ?s4 = "SDL_SendWindowEvent WINDOWEVENT_RESTORED
     (SDL_SendAppEvent APP_DIDENTERFOREGROUND (SDL_SendAppEvent APP_WILLENTERFOREGROUND ?s1))"
  let ?s5 = "aaudio_ResumeDevices (openslES_ResumeDevices (ANDROIDAUDIO_ResumeDevices ?s4))"
  have m: "marks ?s5 = marks s"
    by (simp add: audio_defs called_frame SDL_SendAppEvent_def SDL_SendWindowEvent_def
        SDL_PushEvent_frame marks_update)
  have w: "Android_Window (SDL_LockMutex ?s5) = Android_Window s"
    by (simp add: audio_defs called_frame SDL_SendAppEvent_def SDL_SendWindowEvent_def
        SDL_PushEvent_frame)
  have q: "SDL_HasEvent QUIT ?s5 = (QUIT \<in> set (queue s))"
    by (simp add: SDL_HasEvent_def audio_defs called_frame SDL_SendAppEvent_def
        SDL_SendWindowEvent_def SDL_PushEvent_frame)
  have r: "resolution_calls w (SDL_LockMutex ?s5) = resolution_calls w s" for w
    by (rule resolution_calls_frame)
      (simp_all add: audio_defs called_frame SDL_SendAppEvent_def SDL_SendWindowEvent_def
        SDL_PushEvent_frame)
  have l: "marks (SDL_LockMutex ?s5) = marks s"
    using m by (simp add: SDL_LockMutex_def called_frame)
  have "marks (SDL_UnlockMutex (android_egl_context_restore e (SDL_LockMutex ?s5))) =
      marks s @ Call_context_restore #
        (case Android_Window s of None \<Rightarrow> [] | Some w \<Rightarrow> resolution_calls w s)"
    unfolding SDL_UnlockMutex_def
    by (cases "Android_Window s")
      (simp_all add: called_frame(17) android_egl_context_restore_marks l w r)
  then show ?thesis using m q
    by (simp add: Blocking_resume_def Let_def called_frame(17))
qed

lemma NonBlocking_resume_frame:
  "isPausing (NonBlocking_resume e x s) = isPausing s"
  "pauseAudio (NonBlocking_resume e x s) = pauseAudio s"
  "backup_context (NonBlocking_resume e x s) = backup_context s"
  "saved_swap_interval (NonBlocking_resume e x s) = saved_swap_interval s"
  "display (NonBlocking_resume e x s) = display s"
  "PauseSem (NonBlocking_resume e x s) = PauseSem s"
  "ResumeSem (NonBlocking_resume e x s) = ResumeSem s"
  "isPaused (NonBlocking_resume e x s) = False"
  by (simp_all add: NonBlocking_resume_def Let_def audio_defs SDL_SendAppEvent_def
      SDL_SendWindowEvent_def called_frame SDL_PushEvent_frame android_egl_context_restore_frame)

lemma NonBlocking_resume_phase:
  "phase (NonBlocking_resume e x s) = track (phase s) APP_DIDENTERFOREGROUND"
proof -
  let ?s1 = "s\<lparr>isPaused := False\<rparr>"
  let ?s4 = "SDL_SendWindowEvent WINDOWEVENT_RESTORED
     (SDL_SendAppEvent APP_DIDENTERFOREGROUND (SDL_SendAppEvent APP_WILLENTERFOREGROUND ?s1))"
  have "emitted ?s4 = emitted s @ [APP_WILLENTERFOREGROUND, APP_DIDENTERFOREGROUND, WINDOWEVENT_RESTORED]"
    by (simp add: SDL_SendAppEvent_def SDL_SendWindowEvent_def SDL_PushEvent_frame)
  then have p4: "phase ?s4 = track (phase s) APP_DIDENTERFOREGROUND"
    by (simp add: phase_def track_other)
  show ?thesis
    by (simp add: NonBlocking_resume_def Let_def audio_defs phase_restore
        phase_frame [OF called_frame(16)] p4)
qed

lemma NonBlocking_resume_marks:
  "marks (NonBlocking_resume e x s) =
     marks s @
       (if \<not> x \<and> QUIT \<notin> set (queue s) then
          Call_context_restore #
            (case Android_Window s of None \<Rightarrow> [] | Some w \<Rightarrow> resolution_calls w s)
        else [])"
proof -
  let ?s1 = "s\<lparr>isPaused := False\<rparr>"
  let ?s4 = "SDL_SendWindowEvent WINDOWEVENT_RESTORED
     (SDL_SendAppEvent APP_DIDENTERFOREGROUND (SDL_SendAppEvent APP_WILLENTERFOREGROUND ?s1))"
  let ?s5 = "if pauseAudio ?s4
     then aaudio_ResumeDevices (openslES_ResumeDevices (ANDROIDAUDIO_ResumeDevices ?s4))
     else ?s4"
  have m: "marks ?s5 = marks s"
    by (simp add: audio_defs called_frame SDL_SendAppEvent_def SDL_SendWindowEvent_def
        SDL_PushEvent_frame marks_update)
  have w: "Android_Window (SDL_LockMutex ?s5) = Android_Window s"
    by (simp add: audio_defs called_frame SDL_SendAppEvent_def SDL_SendWindowEvent_def
        SDL_PushEvent_frame)
  have q: "SDL_HasEvent QUIT ?s5 = (QUIT \<in> set (queue s))"
    by (simp add: SDL_HasEvent_def audio_defs called_frame SDL_SendAppEvent_def
        SDL_SendWindowEvent_def SDL_PushEvent_frame)
  have r: "resolution_calls w (SDL_LockMutex ?s5) = resolution_calls w s" for w
    by (rule resolution_calls_frame)
      (simp_all add: audio_defs called_frame SDL_SendAppEvent_def SDL_SendWindowEvent_def
        SDL_PushEvent_frame)
  have l: "marks (SDL_LockMutex ?s5) = marks s"
    using m by (simp add: SDL_LockMutex_def called_frame)
  have "marks (SDL_UnlockMutex (android_egl_context_restore e (SDL_LockMutex ?s5))) =
      marks s @ Call_context_restore #
        (case Android_Window s of None \<Rightarrow> [] | Some w \<Rightarrow> resolution_calls w s)"
    unfolding SDL_UnlockMutex_def
    by (cases "Android_Window s")
      (simp_all add: called_frame(17) android_egl_context_restore_marks l w r)
  then show ?thesis using m q
    by (simp add: NonBlocking_resume_def Let_def called_frame(17))
qed

lemma Blocking_pause_frame:
  "pauseAudio (Blocking_pause s) = pauseAudio s"
  "backup_context (Blocking_pause s) = backup_context s"
  "prev_surface_w (Blocking_pause s) = prev_surface_w s"
  "prev_surface_h (Blocking_pause s) = prev_surface_h s"
  "prev_rate (Blocking_pause s) = prev_rate s"
  "Android_Window (Blocking_pause s) = Android_Window s"
  "display (Blocking_pause s) = display s"
  "PauseSem (Blocking_pause s) = PauseSem s"
  "ResumeSem (Blocking_pause s) = ResumeSem s"
  "current_context (Blocking_pause s) = current_context s"
  "swap_interval (Blocking_pause s) = swap_interval s"
  "marks (Blocking_pause s) = marks s"
  by (simp_all add: Blocking_pause_def Let_def SDL_SendAppEvent_def SDL_SendWindowEvent_def
      SDL_PushEvent_frame marks_update)

lemma Blocking_pause_emitted:
  "emitted (Blocking_pause s) =
     emitted s @ (if isPausing s then []
                  else [WINDOWEVENT_MINIMIZED, APP_WILLENTERBACKGROUND, APP_DIDENTERBACKGROUND])"
  "queue (Blocking_pause s) =
     queue s @ (if isPausing s then []
                else [WINDOWEVENT_MINIMIZED, APP_WILLENTERBACKGROUND, APP_DIDENTERBACKGROUND])"
  by (simp_all add: Blocking_pause_def Let_def SDL_SendAppEvent_def SDL_SendWindowEvent_def
      SDL_PushEvent_frame)

lemma Blocking_pause_state:
  "isPausing (Blocking_pause s) =
     (SDL_NumberOfEvents APP_DIDENTERBACKGROUND (Blocking_pause s) > PauseSem s)"
  "isPaused (Blocking_pause s) = (isPaused s \<or> \<not> isPausing (Blocking_pause s))"
  "saved_swap_interval (Blocking_pause s) =
     (if isPausing s then saved_swap_interval s else swap_interval s)"
  by (simp_all add: Blocking_pause_def Let_def SDL_SendAppEvent_def SDL_SendWindowEvent_def
      SDL_PushEvent_frame SDL_NumberOfEvents_def SDL_SemValue_def SDL_GL_GetSwapInterval_def)

lemma Blocking_pause_phase:
  "phase (Blocking_pause s) =
     (if isPausing s then phase s else track (phase s) APP_DIDENTERBACKGROUND)"
  by (simp add: phase_def Blocking_pause_emitted track_other)

lemma NonBlocking_pause_frame:
  "pauseAudio (NonBlocking_pause s) = pauseAudio s"
  "saved_swap_interval (NonBlocking_pause s) = saved_swap_interval s"
  "prev_surface_w (NonBlocking_pause s) = prev_surface_w s"
  "prev_surface_h (NonBlocking_pause s) = prev_surface_h s"
  "prev_rate (NonBlocking_pause s) = prev_rate s"
  "Android_Window (NonBlocking_pause s) = Android_Window s"
  "display (NonBlocking_pause s) = display s"
  "PauseSem (NonBlocking_pause s) = PauseSem s"
  "ResumeSem (NonBlocking_pause s) = ResumeSem s"
  "current_context (NonBlocking_pause s) = current_context s"
  "swap_interval (NonBlocking_pause s) = swap_interval s"
  "marks (NonBlocking_pause s) = marks s"
  by (simp_all add: NonBlocking_pause_def Let_def SDL_SendAppEvent_def SDL_SendWindowEvent_def
      SDL_PushEvent_frame marks_update)

lemma NonBlocking_pause_emitted:
  "emitted (NonBlocking_pause s) =
     emitted s @ (if isPausing s then []
                  else [WINDOWEVENT_MINIMIZED, APP_WILLENTERBACKGROUND, APP_DIDENTERBACKGROUND])"
  "queue (NonBlocking_pause s) =
     queue s @ (if isPausing s then []
                else [WINDOWEVENT_MINIMIZED, APP_WILLENTERBACKGROUND, APP_DIDENTERBACKGROUND])"
  by (simp_all add: NonBlocking_pause_def Let_def SDL_SendAppEvent_def SDL_SendWindowEvent_def
      SDL_PushEvent_frame)

lemma NonBlocking_pause_state:
  "isPausing (NonBlocking_pause s) =
     (SDL_NumberOfEvents APP_DIDENTERBACKGROUND (NonBlocking_pause s) > PauseSem s)"
  "isPaused (NonBlocking_pause s) = (isPaused s \<or> \<not> isPausing (NonBlocking_pause s))"
  "backup_context (NonBlocking_pause s) =
     (backup_context s \<or> \<not> isPausing (NonBlocking_pause s))"
  by (simp_all add: NonBlocking_pause_def Let_def SDL_SendAppEvent_def SDL_SendWindowEvent_def
      SDL_PushEvent_frame SDL_NumberOfEvents_def SDL_SemValue_def)

lemma NonBlocking_pause_phase:
  "phase (NonBlocking_pause s) =
     (if isPausing s then phase s else track (phase s) APP_DIDENTERBACKGROUND)"
  by (simp add: phase_def NonBlocking_pause_emitted track_other)

lemma NonBlocking_backup_frame:
  "isPaused (NonBlocking_backup e x s) = isPaused s"
  "isPausing (NonBlocking_backup e x s) = isPausing s"
  "pauseAudio (NonBlocking_backup e x s) = pauseAudio s"
  "saved_swap_interval (NonBlocking_backup e x s) = saved_swap_interval s"
  "prev_surface_w (NonBlocking_backup e x s) = prev_surface_w s"
  "prev_surface_h (NonBlocking_backup e x s) = prev_surface_h s"
  "prev_rate (NonBlocking_backup e x s) = prev_rate s"
  "display (NonBlocking_backup e x s) = display s"
  "PauseSem (NonBlocking_backup e x s) = PauseSem s"
  "ResumeSem (NonBlocking_backup e x s) = ResumeSem s"
  "queue (NonBlocking_backup e x s) = queue s"
  "swap_interval (NonBlocking_backup e x s) = swap_interval s"
  "emitted (NonBlocking_backup e x s) = emitted s"
  "backup_context (NonBlocking_backup e x s) = False"
  "marks (NonBlocking_backup e x s) =
     marks s @ (if backup_context s \<and> \<not> x then [Call_context_backup] else [])"
  by (simp_all add: NonBlocking_backup_def Let_def audio_defs called_frame
      android_egl_context_backup_frame marks_update)

section \<open>The restore as a whole\<close>

lemma android_egl_context_restore_calls:
  assumes "Android_Window s = Some w"
  shows "calls (android_egl_context_restore e s) =
     calls s @ [Call_context_restore, Call_GL_MakeCurrent (egl_context w)] @
       (if MakeCurrent_ok e (egl_context w) then []
        else [Call_GL_CreateContext, Call_GL_MakeCurrent (CreateContext_result e)]) @
       (case native_window w of
          None \<Rightarrow> []
        | Some nwin \<Rightarrow>
            if nw_format nwin > 0 then [Call_SetFormat (nw_format nwin) (nw_format nwin)] else []) @
       resolution_calls w s @
       (if saved_swap_interval s \<noteq> 0 then
          Call_GL_SetSwapInterval (saved_swap_interval s) #
            (if SetSwapInterval_ok e (saved_swap_interval s) then []
             else [Call_GL_SetSwapInterval 0])
        else [Call_GL_SetSwapInterval 0])"
proof -
  let ?s0 = "called Call_context_restore s"
  let ?s2 = "restore_format w (restore_make_current e w ?s0)"
  have r: "resolution_calls w ?s2 = resolution_calls w s"
    by (rule resolution_calls_frame) (simp_all add: restore_block_frames called_frame)
  have c: "calls (set_backup_done b s') = calls s'" for b s'
    by (simp add: set_backup_done_def)
  have c0: "calls ?s0 = calls s @ [Call_context_restore]"
    by (simp add: called_def)
  show ?thesis using assms
    by (simp add: android_egl_context_restore_def Let_def called_frame c
        restore_swap_interval_calls restore_block_frames restore_resolution_calls r
        restore_format_calls restore_make_current_calls c0)
qed

lemma android_egl_context_restore_context:
  assumes "Android_Window s = Some w"
  shows "Android_Window (android_egl_context_restore e s) =
     Some (w\<lparr>egl_context := (if MakeCurrent_ok e (egl_context w) then egl_context w
                              else CreateContext_result e),
             backup_done := 0\<rparr>)"
    and "current_context (android_egl_context_restore e s) =
     (if MakeCurrent_ok e (egl_context w) then egl_context w
      else if MakeCurrent_ok e (CreateContext_result e) then CreateContext_result e
      else current_context s)"
  using assms
  by (simp_all add: android_egl_context_restore_def Let_def called_frame set_backup_done_def
      restore_block_frames restore_make_current_context set_backup_done_frame)

lemma android_egl_context_restore_swap_interval:
  assumes "Android_Window s = Some w"
  shows "swap_interval (android_egl_context_restore e s) =
     (if SetSwapInterval_ok e (saved_swap_interval s) then saved_swap_interval s
      else if SetSwapInterval_ok e 0 then 0 else swap_interval s)"
  using assms
  by (simp add: android_egl_context_restore_def Let_def called_frame set_backup_done_frame
      restore_block_frames restore_swap_interval_result)

lemma filter_marks:
  "(\<And>c. P c \<Longrightarrow> \<not> plain c) \<Longrightarrow> filter P (calls s) = filter P (marks s)"
  unfolding marks_def filter_filter
  by (rule filter_cong) auto

lemma windowing_marks: "filter windowing (calls s) = filter windowing (marks s)"
proof (rule filter_marks)
  fix c show "windowing c \<Longrightarrow> \<not> plain c" by (cases c) simp_all
qed

lemma windowing_resolution_calls [simp]:
  "filter windowing (resolution_calls w s) = resolution_calls w s"
  by (simp add: resolution_calls_def resolution_push_def split: prod.split)

lemma scan_display_modes_fold: "scan_display_modes m rs = fold max rs m"
  by (induction rs arbitrary: m) (simp_all add: max_def)

lemma scan_display_modes_Max: "scan_display_modes m rs = Max (set (m # rs))"
  by (simp only: scan_display_modes_fold Max.set_eq_fold)

lemma highest_refresh_rate_positive: "0 < highest_refresh_rate d"
  by (simp add: highest_refresh_rate_def Let_def)

lemma fold_max_max: "fold max rs (max a m) = max a (fold max rs (m::int))"
proof (induction rs arbitrary: m)
  case Nil
  show ?case by simp
next
  case (Cons r rs)
  have "max r (max a m) = max a (max r m)"
    by (rule max.left_commute)
  then have "fold max (r # rs) (max a m) = fold max rs (max a (max r m))"
    by simp
  also have "\<dots> = max a (fold max rs (max r m))"
    by (rule Cons.IH)
  finally show ?case by simp
qed

lemma highest_refresh_rate_Max:
  "highest_refresh_rate (Some d) =
     (if 0 < Max (set (desktop_mode_refresh_rate d # display_modes_refresh_rate d))
      then Max (set (desktop_mode_refresh_rate d # display_modes_refresh_rate d)) else 60)"
proof -
  let ?m = "desktop_mode_refresh_rate d" and ?rs = "display_modes_refresh_rate d"
  have "(if ?m > 0 then ?m else 0) = max 0 ?m"
    by (simp add: max_def)
  then have "scan_display_modes (if ?m > 0 then ?m else 0) ?rs = max 0 (fold max ?rs ?m)"
    by (simp only: scan_display_modes_fold fold_max_max)
  then have a: "scan_display_modes (if ?m > 0 then ?m else 0) ?rs = max 0 (Max (set (?m # ?rs)))"
    by (simp only: Max.set_eq_fold)
  define M where "M = Max (set (?m # ?rs))"
  have "(if max 0 M \<le> 0 then 60 else max 0 M) = (if 0 < M then M else 60)"
    by (simp add: max_def)
  then show ?thesis
    unfolding highest_refresh_rate_def Let_def option.case a M_def .
qed

section \<open>The scenarios\<close>

lemmas ex_defs = ex_window_def ex_display_def ex_state_def ex_env_def ex_env_lost_def
  ex_env_bad_alloc_def start_def

lemma ex_state_window: "Android_Window ex_state = Some ex_window"
  by (simp add: ex_state_def start_def)

lemma ex_state_display: "display ex_state = Some ex_display"
  by (simp add: ex_state_def start_def)

lemma ex_geometry: "geometry ex_window ex_state = (1080, 1920, 120)"
  by (simp add: geometry_def screen_size_def highest_refresh_rate_def ex_defs Let_def)

section \<open>The refresh rate of a restore\<close>

text \<open>
  C9. The rate a restore resolves is the highest refresh rate among the display's desktop
  mode and its display modes when that is positive, and 60 otherwise, so 60 when no mode
  reports a positive rate. It is the rate the restore stores as the last applied one, and
  the rate of the resolution call when the restore makes one.
\<close>

theorem restore_applies_highest_refresh_rate:
  assumes "Android_Window s = Some w" and "display s = Some d"
  shows "prev_rate (android_egl_context_restore e s) =
           (if 0 < Max (set (desktop_mode_refresh_rate d # display_modes_refresh_rate d))
            then Max (set (desktop_mode_refresh_rate d # display_modes_refresh_rate d))
            else 60)
       \<and> (list_all (\<lambda>r. r \<le> 0) (desktop_mode_refresh_rate d # display_modes_refresh_rate d)
            \<longrightarrow> prev_rate (android_egl_context_restore e s) = 60)
       \<and> filter windowing (calls (android_egl_context_restore e s)) =
           filter windowing (calls s) @
             (if geometry w s \<noteq> memo s
              then [Call_SetScreenResolution (fst (screen_size w)) (fst (snd (screen_size w)))
                      (fst (snd (snd (screen_size w)))) (snd (snd (snd (screen_size w))))
                      (prev_rate (android_egl_context_restore e s)),
                    Call_SendResize]
              else [])"
proof -
  let ?rates = "desktop_mode_refresh_rate d # display_modes_refresh_rate d"
  let ?s' = "android_egl_context_restore e s"
  have "memo ?s' = geometry w s"
    using assms(1) by (simp add: android_egl_context_restore_memo)
  then have rate: "prev_rate ?s' = highest_refresh_rate (display s)"
    by (simp add: memo_def geometry_def split: prod.splits)
  then have a: "prev_rate ?s' = (if 0 < Max (set ?rates) then Max (set ?rates) else 60)"
    using assms(2) by (simp only: highest_refresh_rate_Max)
  have b: "prev_rate ?s' = 60" if "list_all (\<lambda>r. r \<le> 0) ?rates"
  proof -
    from that have "\<forall>r \<in> set ?rates. r \<le> 0"
      by (simp only: list_all_iff)
    then have "Max (set ?rates) \<le> 0"
      by (intro Max.boundedI) auto
    then have "\<not> 0 < Max (set ?rates)"
      by (simp only: not_less)
    with a show ?thesis by (simp only: if_False)
  qed
  have "filter windowing (calls ?s') = filter windowing (marks s) @ resolution_calls w s"
    using assms(1) by (simp add: windowing_marks android_egl_context_restore_marks)
  then have c: "filter windowing (calls ?s') =
      filter windowing (calls s) @ (if geometry w s \<noteq> memo s then resolution_push w s else [])"
    by (simp add: windowing_marks resolution_calls_def)
  have "resolution_push w s =
      [Call_SetScreenResolution (fst (screen_size w)) (fst (snd (screen_size w)))
         (fst (snd (snd (screen_size w)))) (snd (snd (snd (screen_size w)))) (prev_rate ?s'),
       Call_SendResize]"
    by (simp add: resolution_push_def rate split: prod.split)
  with a b c show ?thesis by simp
qed

theorem restore_applies_highest_refresh_rate_witness:
  "Android_Window ex_state = Some ex_window \<and> display ex_state = Some ex_display
   \<and> prev_rate (android_egl_context_restore ex_env ex_state) = 120
   \<and> filter windowing (calls (android_egl_context_restore ex_env ex_state)) =
       [Call_SetScreenResolution 1080 1920 1080 1920 120, Call_SendResize]"
proof -
  let ?s' = "android_egl_context_restore ex_env ex_state"
  have s: "screen_size ex_window = (1080, 1920, 1080, 1920)"
    by (simp add: screen_size_def ex_window_def)
  have m: "memo ex_state = (0, 0, 0)" and c: "calls ex_state = []"
    by (simp_all add: memo_def ex_state_def start_def)
  have r: "Max (set (desktop_mode_refresh_rate ex_display # display_modes_refresh_rate ex_display)) = 120"
    by (simp add: ex_display_def)
  note t = restore_applies_highest_refresh_rate [OF ex_state_window ex_state_display, of ex_env]
  from t have a: "prev_rate ?s' = 120"
    unfolding r by simp
  from t have "filter windowing (calls ?s') =
      filter windowing (calls ex_state) @
        (if geometry ex_window ex_state \<noteq> memo ex_state
         then [Call_SetScreenResolution (fst (screen_size ex_window))
                 (fst (snd (screen_size ex_window))) (fst (snd (snd (screen_size ex_window))))
                 (snd (snd (snd (screen_size ex_window)))) (prev_rate ?s'),
               Call_SendResize]
         else [])"
    by (elim conjE)
  then have b: "filter windowing (calls ?s') =
      [Call_SetScreenResolution 1080 1920 1080 1920 120, Call_SendResize]"
    by (simp add: s m c a ex_geometry)
  from ex_state_window ex_state_display a b show ?thesis
    by (intro conjI)
qed

section \<open>The resolution is pushed only when the geometry changed\<close>

lemma screen_size_context:
  "screen_size (w\<lparr>egl_context := c, backup_done := b\<rparr>) = screen_size w"
  by (simp add: screen_size_def)

lemma geometry_after_restore:
  assumes "Android_Window s = Some w"
  shows "\<exists>w'. Android_Window (android_egl_context_restore e s) = Some w'
     \<and> geometry w' (android_egl_context_restore e s) = geometry w s"
proof -
  let ?s' = "android_egl_context_restore e s"
  let ?w' = "w\<lparr>egl_context := (if MakeCurrent_ok e (egl_context w) then egl_context w
                                   else CreateContext_result e), backup_done := 0\<rparr>"
  have w': "Android_Window ?s' = Some ?w'"
    using assms by (rule android_egl_context_restore_context)
  have "geometry ?w' ?s' = geometry w s"
    by (simp only: geometry_def screen_size_context android_egl_context_restore_frame)
  with w' show ?thesis by blast
qed

lemma restore_windowing:
  assumes "Android_Window s = Some w"
  shows "filter windowing (calls (android_egl_context_restore e s)) =
     filter windowing (calls s) @ (if geometry w s \<noteq> memo s then resolution_push w s else [])"
proof -
  have "filter windowing (calls (android_egl_context_restore e s)) =
      filter windowing (marks s) @ resolution_calls w s"
    using assms by (simp add: windowing_marks android_egl_context_restore_marks)
  then show ?thesis
    by (simp add: windowing_marks resolution_calls_def)
qed

lemma SendResize_windowing:
  "filter (\<lambda>c. c = Call_SendResize) (calls s) =
     filter (\<lambda>c. c = Call_SendResize) (filter windowing (calls s))"
  unfolding filter_filter by (rule filter_cong) auto

lemma SendResize_resolution_push:
  "filter (\<lambda>c. c = Call_SendResize) (resolution_push w s) = [Call_SendResize]"
  by (simp add: resolution_push_def split: prod.split)

lemma geometry_not_zero: "geometry w s \<noteq> (0, 0, 0)"
  using highest_refresh_rate_positive [of "display s"]
  by (simp add: geometry_def split: prod.split)

text \<open>
  C2. A restore sets the screen resolution and sends the resize exactly when the geometry
  it finds, surface width, surface height and refresh rate, differs from the geometry last
  applied, and then that geometry is the one last applied. So a second restore right after
  pushes nothing, and from the initial memo, which no geometry equals, two restores in a
  row send one resize.
\<close>

theorem restore_pushes_only_new_geometry:
  assumes "Android_Window s = Some w"
  shows "filter windowing (calls (android_egl_context_restore e s)) =
           filter windowing (calls s) @
             (if geometry w s \<noteq> memo s then resolution_push w s else [])
       \<and> memo (android_egl_context_restore e s) = geometry w s
       \<and> filter windowing (calls (android_egl_context_restore e' (android_egl_context_restore e s))) =
           filter windowing (calls (android_egl_context_restore e s))
       \<and> (memo s = (0, 0, 0) \<longrightarrow>
            length (filter (\<lambda>c. c = Call_SendResize)
              (calls (android_egl_context_restore e' (android_egl_context_restore e s)))) =
            length (filter (\<lambda>c. c = Call_SendResize) (calls s)) + 1)"
proof -
  let ?s1 = "android_egl_context_restore e s"
  let ?s2 = "android_egl_context_restore e' ?s1"
  have a: "filter windowing (calls ?s1) =
      filter windowing (calls s) @ (if geometry w s \<noteq> memo s then resolution_push w s else [])"
    using assms by (rule restore_windowing)
  have b: "memo ?s1 = geometry w s"
    using assms by (simp add: android_egl_context_restore_memo)
  obtain w' where w': "Android_Window ?s1 = Some w'" and g: "geometry w' ?s1 = geometry w s"
    using geometry_after_restore [OF assms] by blast
  have c: "filter windowing (calls ?s2) = filter windowing (calls ?s1)"
    using restore_windowing [OF w', of e'] b g by simp
  have d: "length (filter (\<lambda>c. c = Call_SendResize) (calls ?s2)) =
      length (filter (\<lambda>c. c = Call_SendResize) (calls s)) + 1" if "memo s = (0, 0, 0)"
  proof -
    from that have "geometry w s \<noteq> memo s"
      by (simp add: geometry_not_zero)
    with a c have "filter windowing (calls ?s2) = filter windowing (calls s) @ resolution_push w s"
      by simp
    then have "filter (\<lambda>c. c = Call_SendResize) (calls ?s2) =
        filter (\<lambda>c. c = Call_SendResize) (calls s) @ [Call_SendResize]"
      by (simp add: SendResize_windowing [of ?s2] SendResize_windowing [of s]
          SendResize_resolution_push)
    then show ?thesis by simp
  qed
  from a b c d show ?thesis by blast
qed

theorem restore_pushes_only_new_geometry_witness:
  "Android_Window ex_state = Some ex_window
   \<and> memo ex_state = (0, 0, 0)
   \<and> geometry ex_window ex_state = (1080, 1920, 120)
   \<and> filter windowing (calls (android_egl_context_restore ex_env ex_state)) =
       [Call_SetScreenResolution 1080 1920 1080 1920 120, Call_SendResize]
   \<and> length (filter (\<lambda>c. c = Call_SendResize)
        (calls (android_egl_context_restore ex_env (android_egl_context_restore ex_env ex_state)))) = 1"
proof -
  have m: "memo ex_state = (0, 0, 0)" and c: "calls ex_state = []"
    by (simp_all add: memo_def ex_state_def start_def)
  have p: "resolution_push ex_window ex_state =
      [Call_SetScreenResolution 1080 1920 1080 1920 120, Call_SendResize]"
    by (simp add: resolution_push_def screen_size_def highest_refresh_rate_def ex_defs Let_def)
  note t = restore_pushes_only_new_geometry [OF ex_state_window, of ex_env ex_env]
  from t have a: "filter windowing (calls (android_egl_context_restore ex_env ex_state)) =
      [Call_SetScreenResolution 1080 1920 1080 1920 120, Call_SendResize]"
    by (simp add: m c p ex_geometry)
  from t have b: "length (filter (\<lambda>c. c = Call_SendResize)
      (calls (android_egl_context_restore ex_env (android_egl_context_restore ex_env ex_state)))) = 1"
    by (simp add: m c)
  from ex_state_window m ex_geometry a b show ?thesis
    by (intro conjI)
qed

section \<open>A restore whose saved context was lost\<close>

lemma restore_emitted_resets:
  assumes "Android_Window s = Some w"
  shows "emitted (android_egl_context_restore e s) =
     emitted s @ replicate (reset_count e w) RENDER_DEVICE_RESET"
  using assms by (simp add: android_egl_context_restore_emitted)

text \<open>
  C5, as the code has it. When the saved context cannot be made current, the restore
  creates a context, stores it as the window's context and calls
  \<^verbatim>\<open>SDL_GL_MakeCurrent\<close> on it (the context is current when that call succeeds), and
  pushes one \<^verbatim>\<open>SDL_RENDER_DEVICE_RESET\<close>; it pushes a second one when
  \<^verbatim>\<open>eglGetError\<close> then answers \<^verbatim>\<open>EGL_BAD_ALLOC\<close> or \<^verbatim>\<open>EGL_BAD_MATCH\<close>.
\<close>

theorem restore_recreates_lost_context:
  assumes "Android_Window s = Some w" and "\<not> MakeCurrent_ok e (egl_context w)"
  shows "(\<exists>rest. calls (android_egl_context_restore e s) =
            calls s @ [Call_context_restore, Call_GL_MakeCurrent (egl_context w),
                       Call_GL_CreateContext, Call_GL_MakeCurrent (CreateContext_result e)] @ rest)
       \<and> map_option egl_context (Android_Window (android_egl_context_restore e s)) =
           Some (CreateContext_result e)
       \<and> (MakeCurrent_ok e (CreateContext_result e) \<longrightarrow>
            current_context (android_egl_context_restore e s) = CreateContext_result e)
       \<and> emitted (android_egl_context_restore e s) =
           emitted s @
             (if eglGetError e = EGL_BAD_ALLOC \<or> eglGetError e = EGL_BAD_MATCH
              then [RENDER_DEVICE_RESET, RENDER_DEVICE_RESET] else [RENDER_DEVICE_RESET])"
proof -
  let ?s' = "android_egl_context_restore e s"
  have a: "\<exists>rest. calls ?s' =
      calls s @ [Call_context_restore, Call_GL_MakeCurrent (egl_context w),
                 Call_GL_CreateContext, Call_GL_MakeCurrent (CreateContext_result e)] @ rest"
    using assms by (simp add: android_egl_context_restore_calls)
  have b: "map_option egl_context (Android_Window ?s') = Some (CreateContext_result e)"
    using assms by (simp add: android_egl_context_restore_context)
  have c: "current_context ?s' = CreateContext_result e" if "MakeCurrent_ok e (CreateContext_result e)"
    using assms that by (simp add: android_egl_context_restore_context)
  have d: "emitted ?s' = emitted s @
      (if eglGetError e = EGL_BAD_ALLOC \<or> eglGetError e = EGL_BAD_MATCH
       then [RENDER_DEVICE_RESET, RENDER_DEVICE_RESET] else [RENDER_DEVICE_RESET])"
    using assms by (simp add: restore_emitted_resets reset_count_def)
  from a b c d show ?thesis by blast
qed

theorem restore_recreates_lost_context_witness:
  "Android_Window ex_state = Some ex_window \<and> \<not> MakeCurrent_ok ex_env_lost (egl_context ex_window)
   \<and> MakeCurrent_ok ex_env_lost (CreateContext_result ex_env_lost)
   \<and> map_option egl_context (Android_Window (android_egl_context_restore ex_env_lost ex_state)) = Some 8
   \<and> current_context (android_egl_context_restore ex_env_lost ex_state) = 8
   \<and> emitted (android_egl_context_restore ex_env_lost ex_state) = [RENDER_DEVICE_RESET]"
proof -
  have h: "\<not> MakeCurrent_ok ex_env_lost (egl_context ex_window)"
    by (simp add: ex_env_lost_def ex_window_def)
  have k: "MakeCurrent_ok ex_env_lost (CreateContext_result ex_env_lost)"
    and n: "CreateContext_result ex_env_lost = 8"
    and g: "eglGetError ex_env_lost \<noteq> EGL_BAD_ALLOC" "eglGetError ex_env_lost \<noteq> EGL_BAD_MATCH"
    and m: "emitted ex_state = []"
    by (simp_all add: ex_defs eglGetError_def EGL_BAD_ALLOC_def EGL_BAD_MATCH_def)
  note t = restore_recreates_lost_context [OF ex_state_window h]
  from t have a: "map_option egl_context
      (Android_Window (android_egl_context_restore ex_env_lost ex_state)) = Some 8"
    by (simp add: n)
  from t k have b: "current_context (android_egl_context_restore ex_env_lost ex_state) = 8"
    by (simp add: n)
  from t have c: "emitted (android_egl_context_restore ex_env_lost ex_state) = [RENDER_DEVICE_RESET]"
    by (simp add: g m)
  from ex_state_window h k a b c show ?thesis
    by (intro conjI)
qed

text \<open>
  C5 as stated fails: the saved context 7 cannot be made current, no context can, and
  \<^verbatim>\<open>eglGetError\<close> answers \<^verbatim>\<open>EGL_BAD_ALLOC\<close>; the restore pushes two
  \<^verbatim>\<open>SDL_RENDER_DEVICE_RESET\<close> events, not one.
\<close>

theorem restore_resets_twice_counterexample:
  "Android_Window ex_state = Some ex_window
   \<and> \<not> MakeCurrent_ok ex_env_bad_alloc (egl_context ex_window)
   \<and> emitted ex_state = []
   \<and> emitted (android_egl_context_restore ex_env_bad_alloc ex_state) =
       [RENDER_DEVICE_RESET, RENDER_DEVICE_RESET]"
  by (simp add: ex_state_window restore_emitted_resets reset_count_def eglGetError_def
      EGL_BAD_ALLOC_def)
     (simp add: ex_defs)

section \<open>One call of a pump\<close>

lemma NonBlocking_paused:
  assumes "isPaused s"
  shows "Android_PumpEvents_NonBlocking e s =
     aaudio_workaround e
       (if ResumeSem s = 0
        then snd (SDL_SemTryWait Android_ResumeSem
                   (NonBlocking_backup e (IsVideoContextExternal e) s))
        else NonBlocking_resume e (IsVideoContextExternal e)
               (snd (SDL_SemTryWait Android_ResumeSem
                   (NonBlocking_backup e (IsVideoContextExternal e) s))))"
  using assms
  by (simp add: Android_PumpEvents_NonBlocking_def Let_def case_prod_beta SDL_SemTryWait_rc
      SDL_SemValue_def NonBlocking_backup_frame)

lemma NonBlocking_running:
  assumes "\<not> isPaused s"
  shows "Android_PumpEvents_NonBlocking e s =
     aaudio_workaround e
       (if isPausing s then NonBlocking_pause s
        else if PauseSem s = 0 then snd (SDL_SemTryWait Android_PauseSem s)
        else NonBlocking_pause (snd (SDL_SemTryWait Android_PauseSem s)))"
  using assms
  by (simp add: Android_PumpEvents_NonBlocking_def Let_def case_prod_beta SDL_SemTryWait_rc
      SDL_SemValue_def)

lemma Blocking_wait_cases:
  "of_outcome (Blocking_wait e x s) =
     (if ResumeSem s = 0 then (Waiting x, s)
      else (Idle, aaudio_workaround e
                    (Blocking_resume e x (s\<lparr>ResumeSem := ResumeSem s - 1\<rparr>))))"
  by (simp add: Blocking_wait_def SDL_SemWait_def SDL_SemValue_def sem_take_def)

lemma Blocking_paused:
  assumes "isPaused s"
  shows "of_outcome (Android_PumpEvents_Blocking e s) =
     of_outcome (Blocking_wait e (IsVideoContextExternal e) (Blocking_enter e s))"
  using assms by (simp add: Android_PumpEvents_Blocking_def)

lemma Blocking_running:
  assumes "\<not> isPaused s"
  shows "of_outcome (Android_PumpEvents_Blocking e s) =
     (Idle, aaudio_workaround e
       (if isPausing s then Blocking_pause s
        else if PauseSem s = 0 then snd (SDL_SemTryWait Android_PauseSem s)
        else Blocking_pause (snd (SDL_SemTryWait Android_PauseSem s))))"
  using assms
  by (simp add: Android_PumpEvents_Blocking_def Let_def case_prod_beta SDL_SemTryWait_rc
      SDL_SemValue_def)

lemma Blocking_enter_frame:
  "isPaused (Blocking_enter e s) = isPaused s"
  "isPausing (Blocking_enter e s) = isPausing s"
  "pauseAudio (Blocking_enter e s) = pauseAudio s"
  "backup_context (Blocking_enter e s) = backup_context s"
  "saved_swap_interval (Blocking_enter e s) = saved_swap_interval s"
  "prev_surface_w (Blocking_enter e s) = prev_surface_w s"
  "prev_surface_h (Blocking_enter e s) = prev_surface_h s"
  "prev_rate (Blocking_enter e s) = prev_rate s"
  "display (Blocking_enter e s) = display s"
  "PauseSem (Blocking_enter e s) = PauseSem s"
  "ResumeSem (Blocking_enter e s) = ResumeSem s"
  "queue (Blocking_enter e s) = queue s"
  "swap_interval (Blocking_enter e s) = swap_interval s"
  "emitted (Blocking_enter e s) = emitted s"
  "marks (Blocking_enter e s) =
     marks s @ (if IsVideoContextExternal e then [] else [Call_context_backup]) @
       [Call_SemWait Android_ResumeSem]"
  by (simp_all add: Blocking_enter_def Let_def audio_defs called_frame
      android_egl_context_backup_frame)

lemma phase_Blocking_enter: "phase (Blocking_enter e s) = phase s"
  by (rule phase_frame) (simp add: Blocking_enter_frame)

lemma phase_NonBlocking_backup: "phase (NonBlocking_backup e x s) = phase s"
  by (rule phase_frame) (simp add: NonBlocking_backup_frame)

lemma phase_update:
  "phase (s\<lparr>PauseSem := n\<rparr>) = phase s"
  "phase (s\<lparr>ResumeSem := n\<rparr>) = phase s"
  "phase (s\<lparr>queue := q\<rparr>) = phase s"
  "phase (s\<lparr>swap_interval := i\<rparr>) = phase s"
  by (simp_all add: phase_def)

lemmas pump_frames = aaudio_workaround_frame SDL_SemTryWait_frame SDL_SemTryWait_count
  NonBlocking_backup_frame NonBlocking_resume_frame NonBlocking_pause_frame
  Blocking_enter_frame Blocking_resume_frame Blocking_pause_frame

lemmas pump_phase = phase_aaudio_workaround phase_SDL_SemTryWait phase_NonBlocking_backup
  phase_Blocking_enter phase_update NonBlocking_resume_phase NonBlocking_pause_phase
  Blocking_resume_phase Blocking_pause_phase

section \<open>The background and foreground events alternate\<close>

lemma lifecycle_inv_NonBlocking:
  assumes "lifecycle_inv NonBlocking (t, s)"
  shows "lifecycle_inv NonBlocking (t, Android_PumpEvents_NonBlocking e s)"
proof (cases "isPaused s")
  case True
  with assms show ?thesis
    by (simp add: lifecycle_inv_def thread_inv_def NonBlocking_paused pump_frames pump_phase)
next
  case False
  with assms show ?thesis
    by (simp add: lifecycle_inv_def thread_inv_def NonBlocking_running pump_frames pump_phase
        NonBlocking_pause_state)
qed

lemma lifecycle_inv_Blocking_wait:
  assumes "lifecycle_inv Blocking (t, s)" and "isPaused s"
  shows "lifecycle_inv Blocking (of_outcome (Blocking_wait e x s))"
  using assms
  by (simp add: lifecycle_inv_def thread_inv_def Blocking_wait_cases pump_frames pump_phase)

lemma lifecycle_inv_Blocking:
  assumes "lifecycle_inv Blocking (Idle, s)"
  shows "lifecycle_inv Blocking (of_outcome (Android_PumpEvents_Blocking e s))"
proof (cases "isPaused s")
  case True
  have i: "lifecycle_inv Blocking (Idle, Blocking_enter e s)"
    using assms by (simp add: lifecycle_inv_def thread_inv_def pump_frames pump_phase)
  have p: "isPaused (Blocking_enter e s)"
    using True by (simp add: pump_frames)
  have "lifecycle_inv Blocking
      (of_outcome (Blocking_wait e (IsVideoContextExternal e) (Blocking_enter e s)))"
    using i p by (rule lifecycle_inv_Blocking_wait)
  with True show ?thesis by (simp add: Blocking_paused)
next
  case False
  with assms show ?thesis
    by (simp add: lifecycle_inv_def thread_inv_def Blocking_running pump_frames pump_phase
        Blocking_pause_state)
qed

lemma lifecycle_inv_step:
  assumes "lifecycle_inv v c"
  shows "lifecycle_inv v (step v a c)"
proof (cases c)
  case (Pair t s)
  show ?thesis
  proof (cases a)
    case (Tick e)
    show ?thesis
    proof (cases v)
      case Blocking
      show ?thesis
      proof (cases t)
        case Idle
        with assms Pair Tick Blocking show ?thesis
          by (simp add: lifecycle_inv_Blocking)
      next
        case (Waiting x)
        with assms Pair Blocking have "isPaused s"
          by (simp add: lifecycle_inv_def thread_inv_def)
        with assms Pair Tick Blocking Waiting show ?thesis
          by (simp add: lifecycle_inv_Blocking_wait)
      qed
    next
      case NonBlocking
      with assms Pair Tick show ?thesis
        by (simp add: lifecycle_inv_NonBlocking)
    qed
  qed (use assms Pair in \<open>simp_all add: lifecycle_inv_def thread_inv_def phase_update\<close>)
qed

lemma lifecycle_inv_run:
  "lifecycle_inv v c \<Longrightarrow> lifecycle_inv v (run v as c)"
  by (induction as arbitrary: c) (simp_all add: lifecycle_inv_step)

lemma track_None: "foldl track None es = None"
  by (induction es) simp_all

lemma track_no_background:
  assumes "APP_DIDENTERBACKGROUND \<notin> set es"
  shows "foldl track (Some False) es \<noteq> Some True"
  using assms
proof (induction es rule: rev_induct)
  case Nil
  show ?case by simp
next
  case (snoc x xs)
  then show ?case
    by (cases "foldl track (Some False) xs") (auto split: if_splits)
qed

lemma track_no_foreground:
  assumes "APP_DIDENTERFOREGROUND \<notin> set es"
  shows "foldl track (Some True) es \<noteq> Some False"
  using assms
proof (induction es rule: rev_induct)
  case Nil
  show ?case by simp
next
  case (snoc x xs)
  then show ?case
    by (cases "foldl track (Some True) xs") (auto split: if_splits)
qed

lemma track_foreground_needs_background:
  assumes "foldl track (Some False) (pre @ APP_DIDENTERFOREGROUND # post) \<noteq> None"
  shows "APP_DIDENTERBACKGROUND \<in> set pre"
proof (rule ccontr)
  assume "APP_DIDENTERBACKGROUND \<notin> set pre"
  then have "foldl track (Some False) pre \<noteq> Some True"
    by (rule track_no_background)
  then have "track (foldl track (Some False) pre) APP_DIDENTERFOREGROUND = None"
    by (cases "foldl track (Some False) pre") auto
  then have "foldl track (Some False) (pre @ APP_DIDENTERFOREGROUND # post) = None"
    by (simp add: track_None)
  with assms show False by simp
qed

lemma track_background_twice:
  assumes "foldl track (Some False)
      (pre @ APP_DIDENTERBACKGROUND # mid @ APP_DIDENTERBACKGROUND # post) \<noteq> None"
  shows "APP_DIDENTERFOREGROUND \<in> set mid"
proof (rule ccontr)
  assume n: "APP_DIDENTERFOREGROUND \<notin> set mid"
  let ?q = "track (foldl track (Some False) pre) APP_DIDENTERBACKGROUND"
  have q: "?q = None \<or> ?q = Some True"
    by (cases "foldl track (Some False) pre") auto
  have "track (foldl track ?q mid) APP_DIDENTERBACKGROUND = None"
  proof (cases "?q")
    case None
    then show ?thesis by (simp add: track_None)
  next
    case (Some b)
    with q have "?q = Some True" by simp
    moreover have "foldl track (Some True) mid \<noteq> Some False"
      using n by (rule track_no_foreground)
    ultimately show ?thesis
      by (cases "foldl track (Some True) mid") auto
  qed
  then have "foldl track (Some False)
      (pre @ APP_DIDENTERBACKGROUND # mid @ APP_DIDENTERBACKGROUND # post) = None"
    by (simp add: track_None)
  with assms show False by simp
qed

lemmas model_defs = Android_PumpEvents_Blocking_def Android_PumpEvents_NonBlocking_def
  Blocking_wait_def Blocking_enter_def Blocking_resume_def Blocking_pause_def
  NonBlocking_resume_def NonBlocking_backup_def NonBlocking_pause_def aaudio_workaround_def
  android_egl_context_backup_def android_egl_context_restore_def restore_make_current_def
  restore_format_def restore_resolution_def restore_swap_interval_def screen_size_def
  highest_refresh_rate_def eglGetError_def EGL_BAD_ALLOC_def EGL_BAD_MATCH_def prim_defs

lemma ex_cycle_Blocking:
  "run Blocking (ex_cycle ex_env) (Idle, ex_state) =
     (Idle, ex_state
       \<lparr>saved_swap_interval := 1, prev_surface_w := 1080, prev_surface_h := 1920,
        prev_rate := 120,
        emitted := [WINDOWEVENT_MINIMIZED, APP_WILLENTERBACKGROUND, APP_DIDENTERBACKGROUND,
                    APP_WILLENTERFOREGROUND, APP_DIDENTERFOREGROUND, WINDOWEVENT_RESTORED],
        calls := [Call_SemTryWait Android_PauseSem, Call_LockMutex, Call_context_backup,
                  Call_GL_MakeCurrent 0, Call_UnlockMutex, Call_PauseDevices ANDROIDAUDIO,
                  Call_PauseDevices openslES, Call_PauseDevices aaudio,
                  Call_SemWait Android_ResumeSem, Call_ResumeDevices ANDROIDAUDIO,
                  Call_ResumeDevices openslES, Call_ResumeDevices aaudio, Call_LockMutex,
                  Call_context_restore, Call_GL_MakeCurrent 7, Call_SetFormat 4 4,
                  Call_SetScreenResolution 1080 1920 1080 1920 120, Call_SendResize,
                  Call_GL_SetSwapInterval 1, Call_UnlockMutex]\<rparr>)"
  by (simp add: ex_cycle_def ex_defs model_defs Let_def)

text \<open>
  C1. Started while running, with no event pushed yet, either pump, driven by any sequence
  of pause and resume signals, polls and calls, pushes \<open>APP_DIDENTERFOREGROUND\<close> only
  after a \<open>APP_DIDENTERBACKGROUND\<close>, and pushes two \<open>APP_DIDENTERBACKGROUND\<close> only
  with a \<open>APP_DIDENTERFOREGROUND\<close> between them.
\<close>

theorem foreground_background_alternate:
  assumes "\<not> isPaused s" and "\<not> isPausing s" and "emitted s = []"
  shows "(\<forall>pre post. emitted (snd (run v as (Idle, s))) = pre @ APP_DIDENTERFOREGROUND # post
            \<longrightarrow> APP_DIDENTERBACKGROUND \<in> set pre)
       \<and> (\<forall>pre mid post. emitted (snd (run v as (Idle, s))) =
              pre @ APP_DIDENTERBACKGROUND # mid @ APP_DIDENTERBACKGROUND # post
            \<longrightarrow> APP_DIDENTERFOREGROUND \<in> set mid)"
proof -
  let ?es = "emitted (snd (run v as (Idle, s)))"
  have "lifecycle_inv v (Idle, s)"
    using assms by (simp add: lifecycle_inv_def thread_inv_def phase_def)
  then have "lifecycle_inv v (run v as (Idle, s))"
    by (rule lifecycle_inv_run)
  then have ok: "foldl track (Some False) ?es \<noteq> None"
    by (simp add: lifecycle_inv_def phase_def)
  have a: "APP_DIDENTERBACKGROUND \<in> set pre"
    if "?es = pre @ APP_DIDENTERFOREGROUND # post" for pre post
    using ok unfolding that by (rule track_foreground_needs_background)
  have b: "APP_DIDENTERFOREGROUND \<in> set mid"
    if "?es = pre @ APP_DIDENTERBACKGROUND # mid @ APP_DIDENTERBACKGROUND # post" for pre mid post
    using ok unfolding that by (rule track_background_twice)
  from a b show ?thesis by blast
qed

lemma ex_cycle_twice_NonBlocking:
  "emitted (snd (run NonBlocking (ex_cycle ex_env @ ex_cycle ex_env) (Idle, ex_state))) =
     [WINDOWEVENT_MINIMIZED, APP_WILLENTERBACKGROUND] @ APP_DIDENTERBACKGROUND #
     [APP_WILLENTERFOREGROUND, APP_DIDENTERFOREGROUND, WINDOWEVENT_RESTORED,
      WINDOWEVENT_MINIMIZED, APP_WILLENTERBACKGROUND] @ APP_DIDENTERBACKGROUND #
     [APP_WILLENTERFOREGROUND, APP_DIDENTERFOREGROUND, WINDOWEVENT_RESTORED]"
  by (simp add: ex_cycle_def ex_defs model_defs Let_def)

theorem foreground_background_alternate_witness:
  "\<not> isPaused ex_state \<and> \<not> isPausing ex_state \<and> emitted ex_state = []
   \<and> emitted (snd (run NonBlocking (ex_cycle ex_env @ ex_cycle ex_env) (Idle, ex_state))) =
       [WINDOWEVENT_MINIMIZED, APP_WILLENTERBACKGROUND] @ APP_DIDENTERBACKGROUND #
       [APP_WILLENTERFOREGROUND, APP_DIDENTERFOREGROUND, WINDOWEVENT_RESTORED,
        WINDOWEVENT_MINIMIZED, APP_WILLENTERBACKGROUND] @ APP_DIDENTERBACKGROUND #
       [APP_WILLENTERFOREGROUND, APP_DIDENTERFOREGROUND, WINDOWEVENT_RESTORED]
   \<and> APP_DIDENTERFOREGROUND \<in> set [APP_WILLENTERFOREGROUND, APP_DIDENTERFOREGROUND,
        WINDOWEVENT_RESTORED, WINDOWEVENT_MINIMIZED, APP_WILLENTERBACKGROUND]"
proof -
  have h: "\<not> isPaused ex_state" "\<not> isPausing ex_state" "emitted ex_state = []"
    by (simp_all add: ex_state_def start_def)
  note t = foreground_background_alternate [OF h,
      of NonBlocking "ex_cycle ex_env @ ex_cycle ex_env"]
  note m = t [THEN conjunct2, THEN spec, THEN spec, THEN spec, THEN mp,
      OF ex_cycle_twice_NonBlocking]
  from h ex_cycle_twice_NonBlocking m show ?thesis
    by (intro conjI)
qed

section \<open>The marks of one call of a pump\<close>

lemma resolution_calls_window:
  assumes "screen_size w' = screen_size w"
  shows "resolution_calls w' s = resolution_calls w s"
  using assms by (simp add: resolution_calls_def resolution_push_def geometry_def)

lemma restore_marks_frame:
  assumes "queue s' = queue s"
    and "map_option screen_size (Android_Window s') = map_option screen_size (Android_Window s)"
    and "display s' = display s" and "prev_surface_w s' = prev_surface_w s"
    and "prev_surface_h s' = prev_surface_h s" and "prev_rate s' = prev_rate s"
  shows "restore_marks x s' = restore_marks x s"
proof -
  have r: "resolution_calls w s' = resolution_calls w s" for w
    using assms(3-6) by (rule resolution_calls_frame)
  have "(case Android_Window s' of None \<Rightarrow> [] | Some w \<Rightarrow> resolution_calls w s) =
      (case Android_Window s of None \<Rightarrow> [] | Some w \<Rightarrow> resolution_calls w s)"
  proof (cases "Android_Window s'")
    case None
    with assms(2) show ?thesis by simp
  next
    case (Some w')
    with assms(2) obtain w where w: "Android_Window s = Some w"
      and z: "screen_size w' = screen_size w"
      by (cases "Android_Window s") simp_all
    from z have "resolution_calls w' s = resolution_calls w s"
      by (rule resolution_calls_window)
    with Some w show ?thesis by simp
  qed
  moreover have "(case Android_Window s' of None \<Rightarrow> [] | Some w \<Rightarrow> resolution_calls w s') =
      (case Android_Window s' of None \<Rightarrow> [] | Some w \<Rightarrow> resolution_calls w s)"
    by (cases "Android_Window s'") (simp_all add: r)
  ultimately show ?thesis
    by (simp add: restore_marks_def assms(1))
qed

lemma Blocking_resume_restore_marks:
  "marks (Blocking_resume e x s) = marks s @ restore_marks x s"
  by (simp add: Blocking_resume_marks restore_marks_def)

lemma NonBlocking_resume_restore_marks:
  "marks (NonBlocking_resume e x s) = marks s @ restore_marks x s"
  by (simp add: NonBlocking_resume_marks restore_marks_def)

lemma android_egl_context_backup_screen_size:
  "map_option screen_size (Android_Window (android_egl_context_backup e s)) =
     map_option screen_size (Android_Window s)"
  by (cases "Android_Window s")
    (simp_all add: android_egl_context_backup_def prim_defs Let_def screen_size_context)

lemma NonBlocking_backup_screen_size:
  "map_option screen_size (Android_Window (NonBlocking_backup e x s)) =
     map_option screen_size (Android_Window s)"
  by (simp add: NonBlocking_backup_def Let_def audio_defs called_frame
      android_egl_context_backup_screen_size)

lemma Blocking_enter_screen_size:
  "map_option screen_size (Android_Window (Blocking_enter e s)) =
     map_option screen_size (Android_Window s)"
  by (simp add: Blocking_enter_def Let_def audio_defs called_frame
      android_egl_context_backup_screen_size)

lemma restore_marks_update:
  "restore_marks x (s\<lparr>ResumeSem := n\<rparr>) = restore_marks x s"
  by (rule restore_marks_frame) simp_all

lemma restore_marks_SDL_SemTryWait:
  "restore_marks x (snd (SDL_SemTryWait m s)) = restore_marks x s"
  by (rule restore_marks_frame) (simp_all add: SDL_SemTryWait_frame)

lemma restore_marks_NonBlocking_backup:
  "restore_marks x (NonBlocking_backup e y s) = restore_marks x s"
  by (rule restore_marks_frame)
    (simp_all add: NonBlocking_backup_frame NonBlocking_backup_screen_size)

lemma restore_marks_Blocking_enter:
  "restore_marks x (Blocking_enter e s) = restore_marks x s"
  by (rule restore_marks_frame)
    (simp_all add: Blocking_enter_frame Blocking_enter_screen_size)

lemma NonBlocking_pump_marks:
  "marks (Android_PumpEvents_NonBlocking e s) =
     marks s @
       (if isPaused s then
          (if backup_context s \<and> \<not> IsVideoContextExternal e then [Call_context_backup] else []) @
          (if ResumeSem s = 0 then [] else restore_marks (IsVideoContextExternal e) s)
        else [])"
proof (cases "isPaused s")
  case True
  then show ?thesis
    by (simp add: NonBlocking_paused pump_frames NonBlocking_resume_restore_marks
        restore_marks_SDL_SemTryWait restore_marks_NonBlocking_backup)
next
  case False
  then show ?thesis
    by (simp add: NonBlocking_running pump_frames)
qed

lemma Blocking_wait_marks:
  "marks (snd (of_outcome (Blocking_wait e x s))) =
     marks s @ (if ResumeSem s = 0 then [] else restore_marks x s)"
  by (simp add: Blocking_wait_cases pump_frames marks_update Blocking_resume_restore_marks
      restore_marks_update)

lemma Blocking_pump_marks:
  "marks (snd (of_outcome (Android_PumpEvents_Blocking e s))) =
     marks s @
       (if isPaused s then
          (if IsVideoContextExternal e then [] else [Call_context_backup]) @
          [Call_SemWait Android_ResumeSem] @
          (if ResumeSem s = 0 then [] else restore_marks (IsVideoContextExternal e) s)
        else [])"
proof (cases "isPaused s")
  case True
  then show ?thesis
    by (simp add: Blocking_paused Blocking_wait_marks pump_frames restore_marks_Blocking_enter)
next
  case False
  then show ?thesis
    by (simp add: Blocking_running pump_frames)
qed

section \<open>What the marks say about the log\<close>

lemma list_all_marks:
  assumes "\<And>c. plain c \<Longrightarrow> P c"
  shows "list_all P (calls s) = list_all P (marks s)"
  unfolding marks_def using assms by (induction "calls s" arbitrary: s) (auto simp add: list_all_iff)

lemma count_list_filter:
  "P x \<Longrightarrow> count_list (filter P xs) x = count_list xs x"
  by (induction xs) simp_all

lemma count_marks:
  "\<not> plain c \<Longrightarrow> count_list (calls s) c = count_list (marks s) c"
  by (simp add: marks_def count_list_filter)

lemma is_SemWait_marks: "filter is_SemWait (calls s) = filter is_SemWait (marks s)"
proof (rule filter_marks)
  fix c show "is_SemWait c \<Longrightarrow> \<not> plain c" by (cases c) simp_all
qed

lemma device_is_surface_marks:
  "list_all device_is_surface (calls s) = list_all device_is_surface (marks s)"
proof (rule list_all_marks)
  fix c show "plain c \<Longrightarrow> device_is_surface c" by (cases c) simp_all
qed

lemma resolution_calls_device_is_surface: "list_all device_is_surface (resolution_calls w s)"
  by (simp add: resolution_calls_def resolution_push_def screen_size_def Let_def
      split: option.split)

lemma restore_marks_device_is_surface: "list_all device_is_surface (restore_marks x s)"
  by (cases "Android_Window s")
    (simp_all add: restore_marks_def resolution_calls_device_is_surface)

lemma restore_marks_no_wait: "filter is_SemWait (restore_marks x s) = []"
  by (cases "Android_Window s")
    (simp_all add: restore_marks_def resolution_calls_def resolution_push_def split: prod.split)

lemma restore_marks_count:
  "count_list (restore_marks x s) Call_context_backup = 0"
  "count_list (restore_marks x s) Call_context_restore \<le> Suc 0"
  by (cases "Android_Window s";
      simp add: restore_marks_def resolution_calls_def resolution_push_def split: prod.split)+

lemma step_marks:
  "marks (snd (step v a (t, s))) =
     marks s @
       (case a of
          Tick e \<Rightarrow>
            (case v of
               NonBlocking \<Rightarrow>
                 (if isPaused s then
                    (if backup_context s \<and> \<not> IsVideoContextExternal e
                     then [Call_context_backup] else []) @
                    (if ResumeSem s = 0 then [] else restore_marks (IsVideoContextExternal e) s)
                  else [])
             | Blocking \<Rightarrow>
                 (case t of
                    Idle \<Rightarrow>
                      (if isPaused s then
                         (if IsVideoContextExternal e then [] else [Call_context_backup]) @
                         [Call_SemWait Android_ResumeSem] @
                         (if ResumeSem s = 0 then []
                          else restore_marks (IsVideoContextExternal e) s)
                       else [])
                  | Waiting x \<Rightarrow> (if ResumeSem s = 0 then [] else restore_marks x s)))
        | _ \<Rightarrow> [])"
proof (cases a)
  case (Tick e)
  show ?thesis
  proof (cases v)
    case Blocking
    with Tick show ?thesis
      by (cases t) (simp_all add: Blocking_pump_marks Blocking_wait_marks)
  next
    case NonBlocking
    with Tick show ?thesis
      by (simp add: NonBlocking_pump_marks)
  qed
qed (simp_all add: marks_update)

section \<open>The non-blocking pump never waits\<close>

lemma NonBlocking_step_no_wait:
  "fst (step NonBlocking a (t, s)) = t
   \<and> filter is_SemWait (marks (snd (step NonBlocking a (t, s)))) = filter is_SemWait (marks s)"
proof
  show "fst (step NonBlocking a (t, s)) = t"
    by (cases a) simp_all
  show "filter is_SemWait (marks (snd (step NonBlocking a (t, s)))) = filter is_SemWait (marks s)"
    unfolding step_marks by (simp add: restore_marks_no_wait split: action.split)
qed

lemma NonBlocking_run_no_wait:
  "fst (run NonBlocking as (t, s)) = t
   \<and> filter is_SemWait (marks (snd (run NonBlocking as (t, s)))) = filter is_SemWait (marks s)"
proof (induction as arbitrary: s)
  case Nil
  show ?case by simp
next
  case (Cons a as)
  obtain s' where s': "step NonBlocking a (t, s) = (t, s')"
    using NonBlocking_step_no_wait [of a t s] by (cases "step NonBlocking a (t, s)") simp
  with NonBlocking_step_no_wait [of a t s]
  have "filter is_SemWait (marks s') = filter is_SemWait (marks s)" by simp
  with Cons.IH [of s'] s' show ?case by simp
qed

text \<open>
  C7. However often and in whatever state the non-blocking pump is called, the main
  thread is never suspended, and the pump never calls the blocking \<^verbatim>\<open>SDL_SemWait\<close>: the
  blocking waits in the log are those that were there before.
\<close>

theorem NonBlocking_never_waits:
  "fst (run NonBlocking as (t, s)) = t
   \<and> filter is_SemWait (calls (snd (run NonBlocking as (t, s)))) = filter is_SemWait (calls s)"
  using NonBlocking_run_no_wait [of as t s] by (simp add: is_SemWait_marks)

section \<open>The device size of a resolution call is its surface size\<close>

lemma step_device_is_surface:
  assumes "list_all device_is_surface (marks s)"
  shows "list_all device_is_surface (marks (snd (step v a (t, s))))"
  using assms
  by (simp add: step_marks restore_marks_device_is_surface
      split: action.split variant.split thread.split)

lemma run_device_is_surface:
  assumes "list_all device_is_surface (marks (snd c))"
  shows "list_all device_is_surface (marks (snd (run v as c)))"
  using assms
proof (induction as arbitrary: c)
  case Nil
  then show ?case by simp
next
  case (Cons a as)
  have "list_all device_is_surface (marks (snd (step v a (fst c, snd c))))"
    using Cons.prems by (rule step_device_is_surface)
  then show ?case
    using Cons.IH [of "step v a c"] by simp
qed

text \<open>
  C10. Every call of \<^verbatim>\<open>Android_SetScreenResolution\<close> that a restore makes passes the
  surface width and height again as the device width and height: for one restore, and for
  every run of either pump, the resolution calls in the log keep that form.
\<close>

theorem resolution_device_is_surface:
  assumes "list_all device_is_surface (calls s)"
  shows "list_all device_is_surface (calls (android_egl_context_restore e s))
       \<and> list_all device_is_surface (calls (snd (run v as (t, s))))"
proof -
  have m: "list_all device_is_surface (marks s)"
    using assms by (simp add: device_is_surface_marks)
  have "list_all device_is_surface (marks (android_egl_context_restore e s))"
    using m
    by (cases "Android_Window s")
      (simp_all add: android_egl_context_restore_marks resolution_calls_device_is_surface)
  moreover have "list_all device_is_surface (marks (snd (run v as (t, s))))"
    using m run_device_is_surface [of "(t, s)" v as] by simp
  ultimately show ?thesis
    by (simp add: device_is_surface_marks)
qed

theorem resolution_device_is_surface_witness:
  "list_all device_is_surface (calls ex_state)
   \<and> list_all device_is_surface (calls (android_egl_context_restore ex_env ex_state))
   \<and> list_all device_is_surface (calls (snd (run Blocking (ex_cycle ex_env) (Idle, ex_state))))
   \<and> Call_SetScreenResolution 1080 1920 1080 1920 120
        \<in> set (calls (snd (run Blocking (ex_cycle ex_env) (Idle, ex_state))))"
proof -
  have h: "list_all device_is_surface (calls ex_state)"
    by (simp add: ex_state_def start_def)
  note t = resolution_device_is_surface [OF h, of ex_env Blocking "ex_cycle ex_env" Idle]
  have m: "Call_SetScreenResolution 1080 1920 1080 1920 120
      \<in> set (calls (snd (run Blocking (ex_cycle ex_env) (Idle, ex_state))))"
    by (simp add: ex_cycle_Blocking)
  from h t [THEN conjunct1] t [THEN conjunct2] m show ?thesis
    by (intro conjI)
qed

section \<open>One backup for a pause, one restore for a resume\<close>

lemmas pump_marks = marks_update Blocking_resume_restore_marks NonBlocking_resume_restore_marks
  restore_marks_count

lemma thread_inv_step:
  assumes "thread_inv v c"
  shows "thread_inv v (step v a c)"
proof (cases c)
  case (Pair t s)
  show ?thesis
  proof (cases a)
    case (Tick e)
    show ?thesis
    proof (cases v)
      case NonBlocking
      with assms Pair Tick show ?thesis
        by (simp add: thread_inv_def)
    next
      case Blocking
      show ?thesis
      proof (cases "isPaused s")
        case True
        with assms Pair Tick Blocking show ?thesis
          by (cases t)
            (simp_all add: thread_inv_def Blocking_paused Blocking_wait_cases pump_frames)
      next
        case False
        with assms Pair Tick Blocking show ?thesis
          by (cases t) (simp_all add: thread_inv_def Blocking_running)
      qed
    qed
  qed (use assms Pair in \<open>simp_all add: thread_inv_def\<close>)
qed

lemma step_backup:
  assumes "thread_inv v c"
  shows "count_list (marks (snd (step v a c))) Call_context_backup + backup_due v (step v a c)
     \<le> count_list (marks (snd c)) Call_context_backup + backup_due v c
         + pause_commits [c, step v a c]"
proof (cases c)
  case (Pair t s)
  show ?thesis
  proof (cases a)
    case (Tick e)
    show ?thesis
    proof (cases v)
      case NonBlocking
      show ?thesis
      proof (cases "isPaused s")
        case True
        with Pair Tick NonBlocking show ?thesis
          by (simp add: backup_due_def NonBlocking_paused pump_frames pump_marks)
      next
        case False
        with Pair Tick NonBlocking show ?thesis
          by (simp add: backup_due_def NonBlocking_running pump_frames pump_marks
              NonBlocking_pause_state)
      qed
    next
      case Blocking
      show ?thesis
      proof (cases "isPaused s")
        case True
        with Pair Tick Blocking show ?thesis
          by (cases t)
            (simp_all add: backup_due_def Blocking_paused Blocking_wait_cases pump_frames
              pump_marks)
      next
        case False
        with assms Pair Tick Blocking show ?thesis
          by (cases t)
            (simp_all add: thread_inv_def backup_due_def Blocking_running pump_frames
              pump_marks Blocking_pause_state)
      qed
    qed
  qed (use Pair in \<open>simp_all add: backup_due_def marks_update split: variant.split\<close>)
qed

lemma step_restore:
  assumes "thread_inv v c"
  shows "count_list (marks (snd (step v a c))) Call_context_restore
     \<le> count_list (marks (snd c)) Call_context_restore + resume_commits [c, step v a c]"
proof (cases c)
  case (Pair t s)
  show ?thesis
  proof (cases a)
    case (Tick e)
    show ?thesis
    proof (cases v)
      case NonBlocking
      show ?thesis
      proof (cases "isPaused s")
        case True
        with Pair Tick NonBlocking show ?thesis
          by (simp add: NonBlocking_paused pump_frames pump_marks)
      next
        case False
        with Pair Tick NonBlocking show ?thesis
          by (simp add: NonBlocking_running pump_frames pump_marks)
      qed
    next
      case Blocking
      show ?thesis
      proof (cases "isPaused s")
        case True
        with Pair Tick Blocking show ?thesis
          by (cases t)
            (simp_all add: Blocking_paused Blocking_wait_cases pump_frames pump_marks)
      next
        case False
        with assms Pair Tick Blocking show ?thesis
          by (cases t)
            (simp_all add: thread_inv_def Blocking_running pump_frames pump_marks)
      qed
    qed
  qed (use Pair in \<open>simp_all add: marks_update\<close>)
qed

lemma trace_head: "\<exists>cs. trace v as c = c # cs"
  by (cases as) simp_all

lemma pause_commits_trace:
  "pause_commits (trace v (a # as) c) =
     pause_commits [c, step v a c] + pause_commits (trace v as (step v a c))"
proof -
  obtain cs where "trace v as (step v a c) = step v a c # cs"
    using trace_head by blast
  then show ?thesis by simp
qed

lemma resume_commits_trace:
  "resume_commits (trace v (a # as) c) =
     resume_commits [c, step v a c] + resume_commits (trace v as (step v a c))"
proof -
  obtain cs where "trace v as (step v a c) = step v a c # cs"
    using trace_head by blast
  then show ?thesis by simp
qed

lemma run_backup:
  assumes "thread_inv v c"
  shows "count_list (marks (snd (run v as c))) Call_context_backup + backup_due v (run v as c)
     \<le> count_list (marks (snd c)) Call_context_backup + backup_due v c
         + pause_commits (trace v as c)"
  using assms
proof (induction as arbitrary: c)
  case Nil
  show ?case by simp
next
  case (Cons a as)
  have "thread_inv v (step v a c)"
    using Cons.prems by (rule thread_inv_step)
  from Cons.IH [OF this] step_backup [OF Cons.prems, of a]
  show ?case
    unfolding pause_commits_trace run.simps by linarith
qed

lemma run_restore:
  assumes "thread_inv v c"
  shows "count_list (marks (snd (run v as c))) Call_context_restore
     \<le> count_list (marks (snd c)) Call_context_restore + resume_commits (trace v as c)"
  using assms
proof (induction as arbitrary: c)
  case Nil
  show ?case by simp
next
  case (Cons a as)
  have "thread_inv v (step v a c)"
    using Cons.prems by (rule thread_inv_step)
  from Cons.IH [OF this] step_restore [OF Cons.prems, of a]
  show ?case
    unfolding resume_commits_trace run.simps by linarith
qed

text \<open>
  C8. In every run of either pump that starts while running, with no backup pending, the
  context backup is entered at most once for each commitment to the pause and the context
  restore at most once for each commitment to a resume, however often the pump is called
  in between.
\<close>

theorem backup_and_restore_once_per_commitment:
  assumes "\<not> isPaused s" and "\<not> backup_context s"
  shows "count_list (calls (snd (run v as (Idle, s)))) Call_context_backup
           \<le> count_list (calls s) Call_context_backup + pause_commits (trace v as (Idle, s))
       \<and> count_list (calls (snd (run v as (Idle, s)))) Call_context_restore
           \<le> count_list (calls s) Call_context_restore + resume_commits (trace v as (Idle, s))"
proof -
  have i: "thread_inv v (Idle, s)"
    by (simp add: thread_inv_def)
  have d: "backup_due v (Idle, s) = 0"
    using assms by (simp add: backup_due_def split: variant.split)
  from run_backup [OF i, of as] d
  have "count_list (marks (snd (run v as (Idle, s)))) Call_context_backup
      \<le> count_list (marks s) Call_context_backup + pause_commits (trace v as (Idle, s))"
    by simp
  moreover from run_restore [OF i, of as]
  have "count_list (marks (snd (run v as (Idle, s)))) Call_context_restore
      \<le> count_list (marks s) Call_context_restore + resume_commits (trace v as (Idle, s))"
    by simp
  ultimately show ?thesis
    by (simp add: count_marks)
qed

lemma ex_cycle_commits:
  "pause_commits (trace NonBlocking (ex_cycle ex_env) (Idle, ex_state)) = 1"
  "resume_commits (trace NonBlocking (ex_cycle ex_env) (Idle, ex_state)) = 1"
  "count_list (calls (snd (run NonBlocking (ex_cycle ex_env) (Idle, ex_state)))) Call_context_backup = 1"
  "count_list (calls (snd (run NonBlocking (ex_cycle ex_env) (Idle, ex_state)))) Call_context_restore = 1"
  by (simp_all add: ex_cycle_def ex_defs model_defs Let_def)

theorem backup_and_restore_once_per_commitment_witness:
  "\<not> isPaused ex_state \<and> \<not> backup_context ex_state
   \<and> count_list (calls (snd (run NonBlocking (ex_cycle ex_env) (Idle, ex_state)))) Call_context_backup
       \<le> count_list (calls ex_state) Call_context_backup
           + pause_commits (trace NonBlocking (ex_cycle ex_env) (Idle, ex_state))
   \<and> count_list (calls (snd (run NonBlocking (ex_cycle ex_env) (Idle, ex_state)))) Call_context_restore
       \<le> count_list (calls ex_state) Call_context_restore
           + resume_commits (trace NonBlocking (ex_cycle ex_env) (Idle, ex_state))
   \<and> pause_commits (trace NonBlocking (ex_cycle ex_env) (Idle, ex_state)) = 1
   \<and> resume_commits (trace NonBlocking (ex_cycle ex_env) (Idle, ex_state)) = 1
   \<and> count_list (calls (snd (run NonBlocking (ex_cycle ex_env) (Idle, ex_state)))) Call_context_backup = 1
   \<and> count_list (calls (snd (run NonBlocking (ex_cycle ex_env) (Idle, ex_state)))) Call_context_restore = 1"
proof -
  have h: "\<not> isPaused ex_state" "\<not> backup_context ex_state"
    by (simp_all add: ex_state_def start_def)
  note t = backup_and_restore_once_per_commitment [OF h, of NonBlocking "ex_cycle ex_env"]
  from h t [THEN conjunct1] t [THEN conjunct2] ex_cycle_commits show ?thesis
    by (intro conjI)
qed

section \<open>A pause stays pending until its background event is taken\<close>

lemma track_count:
  assumes "foldl track (Some False) es = Some b"
  shows "count_list es APP_DIDENTERBACKGROUND =
     count_list es APP_DIDENTERFOREGROUND + (if b then 1 else 0)"
  using assms
proof (induction es arbitrary: b rule: rev_induct)
  case Nil
  then show ?case by simp
next
  case (snoc x xs)
  show ?case
  proof (cases "foldl track (Some False) xs")
    case None
    with snoc.prems show ?thesis by simp
  next
    case (Some b0)
    from snoc.IH [OF Some] Some snoc.prems show ?thesis
      by (auto split: if_splits)
  qed
qed

lemma pause_step_NonBlocking:
  assumes "\<not> isPaused s" and "isPausing s \<or> 0 < PauseSem s"
  shows "isPausing (Android_PumpEvents_NonBlocking e s) =
           (SDL_NumberOfEvents APP_DIDENTERBACKGROUND (Android_PumpEvents_NonBlocking e s)
              > SDL_SemValue Android_PauseSem (Android_PumpEvents_NonBlocking e s))"
    and "isPaused (Android_PumpEvents_NonBlocking e s) =
           (\<not> isPausing (Android_PumpEvents_NonBlocking e s))"
    and "emitted (Android_PumpEvents_NonBlocking e s) =
           emitted s @ (if isPausing s then []
                        else [WINDOWEVENT_MINIMIZED, APP_WILLENTERBACKGROUND,
                              APP_DIDENTERBACKGROUND])"
  using assms
  by (auto simp add: NonBlocking_running pump_frames NonBlocking_pause_state
      NonBlocking_pause_emitted SDL_NumberOfEvents_def SDL_SemValue_def)

lemma pause_step_Blocking:
  assumes "\<not> isPaused s" and "isPausing s \<or> 0 < PauseSem s"
  shows "fst (of_outcome (Android_PumpEvents_Blocking e s)) = Idle"
    and "isPausing (snd (of_outcome (Android_PumpEvents_Blocking e s))) =
           (SDL_NumberOfEvents APP_DIDENTERBACKGROUND (snd (of_outcome (Android_PumpEvents_Blocking e s)))
              > SDL_SemValue Android_PauseSem (snd (of_outcome (Android_PumpEvents_Blocking e s))))"
    and "isPaused (snd (of_outcome (Android_PumpEvents_Blocking e s))) =
           (\<not> isPausing (snd (of_outcome (Android_PumpEvents_Blocking e s))))"
    and "emitted (snd (of_outcome (Android_PumpEvents_Blocking e s))) =
           emitted s @ (if isPausing s then []
                        else [WINDOWEVENT_MINIMIZED, APP_WILLENTERBACKGROUND,
                              APP_DIDENTERBACKGROUND])"
  using assms
  by (auto simp add: Blocking_running pump_frames Blocking_pause_state
      Blocking_pause_emitted SDL_NumberOfEvents_def SDL_SemValue_def)

text \<open>
  C4. A call of either pump that finds a pause signal, pending from an earlier call or
  taken from the semaphore now, returns; it leaves the state pausing, and not paused,
  exactly when more \<open>APP_DIDENTERBACKGROUND\<close> events are queued than the pause semaphore
  counts, and paused otherwise. It pushes the three pause events only when no pause was
  pending. And along every run from a running state the pushed
  \<open>APP_DIDENTERBACKGROUND\<close> events are one more than the pushed
  \<open>APP_DIDENTERFOREGROUND\<close> events while the state is pausing or paused, and as many
  otherwise: one background event for each unresolved pause.
\<close>

theorem pause_pending_while_background_event_queued:
  "(\<not> isPaused s \<and> (isPausing s \<or> 0 < PauseSem s) \<longrightarrow>
      fst (step v (Tick e) (Idle, s)) = Idle
      \<and> (isPausing (snd (step v (Tick e) (Idle, s))) \<and> \<not> isPaused (snd (step v (Tick e) (Idle, s))))
          = (SDL_NumberOfEvents APP_DIDENTERBACKGROUND (snd (step v (Tick e) (Idle, s)))
               > SDL_SemValue Android_PauseSem (snd (step v (Tick e) (Idle, s))))
      \<and> (isPaused (snd (step v (Tick e) (Idle, s))) \<and> \<not> isPausing (snd (step v (Tick e) (Idle, s))))
          = (SDL_NumberOfEvents APP_DIDENTERBACKGROUND (snd (step v (Tick e) (Idle, s)))
               \<le> SDL_SemValue Android_PauseSem (snd (step v (Tick e) (Idle, s))))
      \<and> emitted (snd (step v (Tick e) (Idle, s))) =
           emitted s @ (if isPausing s then []
                        else [WINDOWEVENT_MINIMIZED, APP_WILLENTERBACKGROUND,
                              APP_DIDENTERBACKGROUND]))
   \<and> (\<not> isPaused s \<and> \<not> isPausing s \<and> emitted s = [] \<longrightarrow>
        count_list (emitted (snd (run v as (Idle, s)))) APP_DIDENTERBACKGROUND =
        count_list (emitted (snd (run v as (Idle, s)))) APP_DIDENTERFOREGROUND
          + (if isPaused (snd (run v as (Idle, s))) \<or> isPausing (snd (run v as (Idle, s)))
             then 1 else 0))"
proof (intro conjI impI)
  assume h: "\<not> isPaused s \<and> (isPausing s \<or> 0 < PauseSem s)"
  then have h1: "\<not> isPaused s" and h2: "isPausing s \<or> 0 < PauseSem s"
    by simp_all
  let ?s' = "snd (step v (Tick e) (Idle, s))"
  have a: "fst (step v (Tick e) (Idle, s)) = Idle
      \<and> isPausing ?s' = (SDL_NumberOfEvents APP_DIDENTERBACKGROUND ?s' > SDL_SemValue Android_PauseSem ?s')
      \<and> isPaused ?s' = (\<not> isPausing ?s')
      \<and> emitted ?s' = emitted s @ (if isPausing s then []
            else [WINDOWEVENT_MINIMIZED, APP_WILLENTERBACKGROUND, APP_DIDENTERBACKGROUND])"
  proof (cases v)
    case Blocking
    with pause_step_Blocking [OF h1 h2, of e] show ?thesis by simp
  next
    case NonBlocking
    with pause_step_NonBlocking [OF h1 h2, of e] show ?thesis by simp
  qed
  from a show "fst (step v (Tick e) (Idle, s)) = Idle" by simp
  from a show "(isPausing ?s' \<and> \<not> isPaused ?s')
      = (SDL_NumberOfEvents APP_DIDENTERBACKGROUND ?s' > SDL_SemValue Android_PauseSem ?s')"
    by simp
  from a show "(isPaused ?s' \<and> \<not> isPausing ?s')
      = (SDL_NumberOfEvents APP_DIDENTERBACKGROUND ?s' \<le> SDL_SemValue Android_PauseSem ?s')"
    by auto
  from a show "emitted ?s' = emitted s @ (if isPausing s then []
            else [WINDOWEVENT_MINIMIZED, APP_WILLENTERBACKGROUND, APP_DIDENTERBACKGROUND])"
    by simp
next
  assume h: "\<not> isPaused s \<and> \<not> isPausing s \<and> emitted s = []"
  let ?s' = "snd (run v as (Idle, s))"
  have "lifecycle_inv v (Idle, s)"
    using h by (simp add: lifecycle_inv_def thread_inv_def phase_def)
  then have "lifecycle_inv v (run v as (Idle, s))"
    by (rule lifecycle_inv_run)
  then have "foldl track (Some False) (emitted ?s') = Some (isPaused ?s' \<or> isPausing ?s')"
    by (simp add: lifecycle_inv_def phase_def)
  then show "count_list (emitted ?s') APP_DIDENTERBACKGROUND =
      count_list (emitted ?s') APP_DIDENTERFOREGROUND
        + (if isPaused ?s' \<or> isPausing ?s' then 1 else 0)"
    by (rule track_count)
qed

theorem pause_pending_while_background_event_queued_witness:
  "\<not> isPaused (ex_state\<lparr>PauseSem := 1\<rparr>) \<and> 0 < PauseSem (ex_state\<lparr>PauseSem := 1\<rparr>)
   \<and> \<not> isPausing (ex_state\<lparr>PauseSem := 1\<rparr>) \<and> emitted (ex_state\<lparr>PauseSem := 1\<rparr>) = []
   \<and> SDL_NumberOfEvents APP_DIDENTERBACKGROUND
        (snd (step NonBlocking (Tick ex_env) (Idle, ex_state\<lparr>PauseSem := 1\<rparr>)))
      > SDL_SemValue Android_PauseSem
        (snd (step NonBlocking (Tick ex_env) (Idle, ex_state\<lparr>PauseSem := 1\<rparr>)))
   \<and> isPausing (snd (step NonBlocking (Tick ex_env) (Idle, ex_state\<lparr>PauseSem := 1\<rparr>)))
   \<and> \<not> isPaused (snd (step NonBlocking (Tick ex_env) (Idle, ex_state\<lparr>PauseSem := 1\<rparr>)))
   \<and> count_list (emitted (snd (run NonBlocking
          [Tick ex_env, PollEvent, PollEvent, PollEvent, Tick ex_env, Tick ex_env]
          (Idle, ex_state\<lparr>PauseSem := 1\<rparr>)))) APP_DIDENTERBACKGROUND = 1"
proof -
  let ?s = "ex_state\<lparr>PauseSem := 1\<rparr>"
  let ?s' = "snd (step NonBlocking (Tick ex_env) (Idle, ?s))"
  let ?as = "[Tick ex_env, PollEvent, PollEvent, PollEvent, Tick ex_env, Tick ex_env]"
  let ?r = "snd (run NonBlocking ?as (Idle, ?s))"
  have a: "\<not> isPaused ?s" "0 < PauseSem ?s" "\<not> isPausing ?s" "emitted ?s = []"
    by (simp_all add: ex_state_def start_def)
  from a have h1: "\<not> isPaused ?s \<and> (isPausing ?s \<or> 0 < PauseSem ?s)"
    and h2: "\<not> isPaused ?s \<and> \<not> isPausing ?s \<and> emitted ?s = []"
    by simp_all
  note t1 = pause_pending_while_background_event_queued
    [THEN conjunct1, THEN mp, OF h1, of NonBlocking ex_env]
  note t2 = pause_pending_while_background_event_queued
    [THEN conjunct2, THEN mp, OF h2, of NonBlocking ?as]
  have n: "SDL_NumberOfEvents APP_DIDENTERBACKGROUND ?s' > SDL_SemValue Android_PauseSem ?s'"
    by (simp add: ex_defs model_defs Let_def)
  from t1 have "(isPausing ?s' \<and> \<not> isPaused ?s')
      = (SDL_NumberOfEvents APP_DIDENTERBACKGROUND ?s' > SDL_SemValue Android_PauseSem ?s')"
    by blast
  from this n have p: "isPausing ?s' \<and> \<not> isPaused ?s'"
    by (rule iffD2)
  have f: "count_list (emitted ?r) APP_DIDENTERFOREGROUND = 0" and q: "isPaused ?r"
    by (simp_all add: ex_defs model_defs Let_def)
  from t2 f q have c: "count_list (emitted ?r) APP_DIDENTERBACKGROUND = 1"
    by simp
  from a n p c show ?thesis by simp
qed

section \<open>The blocking pump returns from a pause only with a resume signal\<close>

text \<open>
  C6, as the code has it. A call of the blocking pump made in the paused state, new or
  continued after a suspension, returns only when there is a resume signal, which it takes,
  and then the state is no longer paused; with no resume signal the thread is suspended
  and the state stays paused. The call that commits to the pause is made in the running
  state and returns.
\<close>

theorem Blocking_paused_call_returns_with_resume:
  "(isPaused s \<and> fst (step Blocking (Tick e) (t, s)) = Idle \<longrightarrow>
      0 < ResumeSem s
      \<and> ResumeSem (snd (step Blocking (Tick e) (t, s))) = ResumeSem s - 1
      \<and> \<not> isPaused (snd (step Blocking (Tick e) (t, s))))
   \<and> (isPaused s \<and> ResumeSem s = 0 \<longrightarrow>
        fst (step Blocking (Tick e) (t, s)) \<noteq> Idle
        \<and> isPaused (snd (step Blocking (Tick e) (t, s)))
        \<and> ResumeSem (snd (step Blocking (Tick e) (t, s))) = 0)
   \<and> (\<not> isPaused s \<longrightarrow> fst (step Blocking (Tick e) (Idle, s)) = Idle)"
proof -
  have a: "fst (step Blocking (Tick e) (t, s)) = (if ResumeSem s = 0 then fst (step Blocking (Tick e) (t, s)) else Idle)
      \<and> (ResumeSem s = 0 \<longrightarrow> fst (step Blocking (Tick e) (t, s)) \<noteq> Idle
            \<and> isPaused (snd (step Blocking (Tick e) (t, s)))
            \<and> ResumeSem (snd (step Blocking (Tick e) (t, s))) = 0)
      \<and> (ResumeSem s \<noteq> 0 \<longrightarrow> ResumeSem (snd (step Blocking (Tick e) (t, s))) = ResumeSem s - 1
            \<and> \<not> isPaused (snd (step Blocking (Tick e) (t, s))))"
    if "isPaused s"
    using that
    by (cases t) (simp_all add: Blocking_paused Blocking_wait_cases pump_frames)
  have b: "fst (step Blocking (Tick e) (Idle, s)) = Idle" if "\<not> isPaused s"
    using that by (simp add: Blocking_running)
  from a b show ?thesis
    by (metis gr0I)
qed

lemma ex_pause_Blocking:
  "run Blocking (ex_pause ex_env) (Idle, ex_state) =
     (Idle, ex_state
       \<lparr>isPaused := True, saved_swap_interval := 1,
        emitted := [WINDOWEVENT_MINIMIZED, APP_WILLENTERBACKGROUND, APP_DIDENTERBACKGROUND],
        calls := [Call_SemTryWait Android_PauseSem]\<rparr>)"
  by (simp add: ex_pause_def ex_defs model_defs Let_def)

theorem Blocking_paused_call_returns_with_resume_witness:
  "isPaused (snd (run Blocking (ex_pause ex_env @ [RaiseResume]) (Idle, ex_state)))
   \<and> fst (step Blocking (Tick ex_env)
        (Idle, snd (run Blocking (ex_pause ex_env @ [RaiseResume]) (Idle, ex_state)))) = Idle
   \<and> 0 < ResumeSem (snd (run Blocking (ex_pause ex_env @ [RaiseResume]) (Idle, ex_state)))
   \<and> \<not> isPaused (snd (step Blocking (Tick ex_env)
        (Idle, snd (run Blocking (ex_pause ex_env @ [RaiseResume]) (Idle, ex_state)))))
   \<and> isPaused (snd (run Blocking (ex_pause ex_env) (Idle, ex_state)))
   \<and> ResumeSem (snd (run Blocking (ex_pause ex_env) (Idle, ex_state))) = 0
   \<and> fst (step Blocking (Tick ex_env)
        (Idle, snd (run Blocking (ex_pause ex_env) (Idle, ex_state)))) \<noteq> Idle
   \<and> \<not> isPaused ex_state
   \<and> fst (step Blocking (Tick ex_env) (Idle, ex_state)) = Idle"
proof -
  let ?p = "snd (run Blocking (ex_pause ex_env) (Idle, ex_state))"
  let ?r = "snd (run Blocking (ex_pause ex_env @ [RaiseResume]) (Idle, ex_state))"
  have r: "?r = ?p\<lparr>ResumeSem := 1\<rparr>"
    by (simp add: ex_pause_def ex_defs model_defs Let_def)
  have h1: "isPaused ?r \<and> fst (step Blocking (Tick ex_env) (Idle, ?r)) = Idle"
    unfolding r by (simp add: ex_pause_Blocking) (simp add: ex_defs model_defs Let_def)
  have h2: "isPaused ?p \<and> ResumeSem ?p = 0"
    by (simp add: ex_pause_Blocking) (simp add: ex_defs)
  have h3: "\<not> isPaused ex_state"
    by (simp add: ex_defs)
  note t1 = Blocking_paused_call_returns_with_resume
    [THEN conjunct1, THEN mp, OF h1]
  note t2 = Blocking_paused_call_returns_with_resume
    [THEN conjunct2, THEN conjunct1, THEN mp, OF h2, of ex_env Idle]
  note t3 = Blocking_paused_call_returns_with_resume
    [THEN conjunct2, THEN conjunct2, THEN mp, OF h3, of ex_env]
  from h1 h2 h3 t1 t2 t3 show ?thesis by blast
qed

text \<open>
  C6 as stated fails: the call that commits to the pause returns. After a pause signal,
  a call of the pump, the three events taken and a second call, the blocking pump has
  committed to the pause and the caller has control again, though no resume signal was
  raised and the pump has not waited.
\<close>

theorem Blocking_commit_returns_counterexample:
  "RaiseResume \<notin> set (ex_pause ex_env)
   \<and> fst (run Blocking (ex_pause ex_env) (Idle, ex_state)) = Idle
   \<and> isPaused (snd (run Blocking (ex_pause ex_env) (Idle, ex_state)))
   \<and> ResumeSem (snd (run Blocking (ex_pause ex_env) (Idle, ex_state))) = 0
   \<and> filter is_SemWait (calls (snd (run Blocking (ex_pause ex_env) (Idle, ex_state)))) = []"
  by (simp add: ex_pause_Blocking) (simp add: ex_pause_def ex_defs)

section \<open>The swap interval across a pause\<close>

lemma NonBlocking_keeps_saved_swap_interval:
  "saved_swap_interval (Android_PumpEvents_NonBlocking e s) = saved_swap_interval s"
  by (cases "isPaused s") (simp_all add: NonBlocking_paused NonBlocking_running pump_frames)

lemma NonBlocking_run_keeps_saved_swap_interval:
  "saved_swap_interval (snd (run NonBlocking as c)) = saved_swap_interval (snd c)"
proof (induction as arbitrary: c)
  case Nil
  show ?case by simp
next
  case (Cons a as)
  have "saved_swap_interval (snd (step NonBlocking a c)) = saved_swap_interval (snd c)"
    by (cases c; cases a) (simp_all add: NonBlocking_keeps_saved_swap_interval)
  with Cons.IH [of "step NonBlocking a c"] show ?case by simp
qed

lemma Blocking_saves_swap_interval:
  assumes "\<not> isPaused s" and "\<not> isPausing s" and "0 < PauseSem s"
  shows "saved_swap_interval (snd (step Blocking (Tick e) (Idle, s))) = swap_interval s"
  using assms by (simp add: Blocking_running pump_frames Blocking_pause_state)

lemma ex_cycle_NonBlocking:
  "swap_interval (snd (run NonBlocking (ex_cycle ex_env) (Idle, ex_state))) = 0"
  "saved_swap_interval (snd (run NonBlocking (ex_pause ex_env) (Idle, ex_state))) = 0"
  "filter (\<lambda>c. \<exists>i. c = Call_GL_SetSwapInterval i)
     (calls (snd (run NonBlocking (ex_cycle ex_env) (Idle, ex_state)))) = [Call_GL_SetSwapInterval 0]"
  by (simp_all add: ex_cycle_def ex_pause_def ex_defs model_defs Let_def)

text \<open>
  C3 holds for the blocking pump and fails for the non-blocking one, which never sets
  \<^verbatim>\<open>saved_swap_interval\<close>: with the swap interval 1 before the pause and every call
  succeeding, the non-blocking pump leaves the saved value at its initial 0 and its
  restore sets the swap interval to 0, where the blocking pump saves 1 and sets 1 again.
\<close>

theorem NonBlocking_resume_loses_swap_interval:
  "swap_interval ex_state = 1
   \<and> SetSwapInterval_ok ex_env 1
   \<and> saved_swap_interval (snd (run NonBlocking (ex_pause ex_env) (Idle, ex_state))) = 0
   \<and> swap_interval (snd (run NonBlocking (ex_cycle ex_env) (Idle, ex_state))) = 0
   \<and> filter (\<lambda>c. \<exists>i. c = Call_GL_SetSwapInterval i)
        (calls (snd (run NonBlocking (ex_cycle ex_env) (Idle, ex_state)))) = [Call_GL_SetSwapInterval 0]
   \<and> saved_swap_interval (snd (run Blocking (ex_pause ex_env) (Idle, ex_state))) = 1
   \<and> swap_interval (snd (run Blocking (ex_cycle ex_env) (Idle, ex_state))) = 1
   \<and> filter (\<lambda>c. \<exists>i. c = Call_GL_SetSwapInterval i)
        (calls (snd (run Blocking (ex_cycle ex_env) (Idle, ex_state)))) = [Call_GL_SetSwapInterval 1]"
  by (simp add: ex_cycle_NonBlocking ex_cycle_Blocking ex_pause_Blocking)
     (simp add: ex_defs)

end
